theory Spec2Isabelle
  imports Complex_Main "HOL-Library.AList" "HOL-Library.Log_Nat"
begin

section \<open>JavaScript values\<close>

text \<open>
  The sources are JavaScript, so every value an event, a state or a resolver parameter
  can hold is a \<open>jsval\<close>. A number is a double: not-a-number, an infinity or a finite
  value (taken as the real it denotes; the sources only compare numbers, they never
  round). A function value is opaque: it is named by an identifier and what a call of
  it does is given by the runtime. A promise carries its fate: it never settles, it is
  fulfilled with a value, or it is rejected.
\<close>

datatype jsnum = NaN | Fin real | PosInf | NegInf

datatype error = TypeError string | Error string

datatype 'a settle = Pending | Fulfilled 'a | Rejected error

datatype jsval =
    JUndefined
  | JNull
  | JBool bool
  | JNum jsnum
  | JStr string
  | JArr "jsval list"
  | JObj "(string \<times> jsval) list"
  | JFun nat
  | JPromise "jsval settle"

text \<open>The \<open>typeof\<close> operator.\<close>

fun typeof :: "jsval \<Rightarrow> string" where
  "typeof JUndefined = ''undefined''"
| "typeof JNull = ''object''"
| "typeof (JBool b) = ''boolean''"
| "typeof (JNum n) = ''number''"
| "typeof (JStr s) = ''string''"
| "typeof (JArr xs) = ''object''"
| "typeof (JObj fs) = ''object''"
| "typeof (JFun f) = ''function''"
| "typeof (JPromise p) = ''object''"

text \<open>
  Truthiness, as \<open>if (v)\<close>, \<open>!v\<close>, \<open>a || b\<close> and \<open>a && b\<close> read a value: undefined,
  null, false, zero, not-a-number and the empty string are falsy.
\<close>

fun truthy :: "jsval \<Rightarrow> bool" where
  "truthy JUndefined = False"
| "truthy JNull = False"
| "truthy (JBool b) = b"
| "truthy (JNum n) = (n \<noteq> NaN \<and> n \<noteq> Fin 0)"
| "truthy (JStr s) = (s \<noteq> [])"
| "truthy (JArr xs) = True"
| "truthy (JObj fs) = True"
| "truthy (JFun f) = True"
| "truthy (JPromise p) = True"

definition js_or :: "jsval \<Rightarrow> jsval \<Rightarrow> jsval" where
  "js_or a b = (if truthy a then a else b)"

text \<open>The comparison \<open>a >= b\<close> of two numbers: false as soon as one is not a number.\<close>

fun num_ge :: "jsnum \<Rightarrow> jsnum \<Rightarrow> bool" where
  "num_ge NaN b = False"
| "num_ge a NaN = False"
| "num_ge PosInf b = True"
| "num_ge a NegInf = True"
| "num_ge NegInf b = False"
| "num_ge a PosInf = False"
| "num_ge (Fin x) (Fin y) = (y \<le> x)"

text \<open>
  A raise of the source is the left summand of a result. \<open>ebind\<close> is the sequencing of
  two statements: the second runs when the first has not thrown.
\<close>

definition ebind :: "error + 'a \<Rightarrow> ('a \<Rightarrow> error + 'b) \<Rightarrow> error + 'b" where
  "ebind m f = (case m of Inl e \<Rightarrow> Inl e | Inr v \<Rightarrow> f v)"

text \<open>
  Reading a property \<open>v.k\<close>: a TypeError on undefined and null, the property of an
  object, and undefined where the value has no such property. None of the names the
  sources read (message, postback, referral, ref, payload, ...) is a property that
  strings, numbers, arrays or functions inherit.
\<close>

fun getp :: "jsval \<Rightarrow> string \<Rightarrow> error + jsval" where
  "getp JUndefined k = Inl (TypeError (''Cannot read properties of undefined (reading '' @ k @ '')''))"
| "getp JNull k = Inl (TypeError (''Cannot read properties of null (reading '' @ k @ '')''))"
| "getp (JObj fs) k = Inr (case map_of fs k of None \<Rightarrow> JUndefined | Some v \<Rightarrow> v)"
| "getp v k = Inr JUndefined"

section \<open>Request.intent\<close>

text \<open>
  The Intent of the source's typedef: a label, a score and the entities. A request holds
  \<open>_intents\<close>: null (here \<open>None\<close>) or the array of the classified intents, best first.
  Only the fields that \<open>intent\<close> and \<open>action\<close> read are kept of a request (attachments,
  timestamp, senderId, recipientId and pageId play no part in them).
\<close>

record intent_rec =
  intent :: string
  score :: jsnum
  entities :: "jsval list"

record request =
  req_data :: jsval
  req_message :: jsval
  req_postback :: jsval
  req_referral :: jsval
  req_optin :: jsval
  req_state :: jsval
  req_intents :: "intent_rec list option"

text \<open>
  The argument \<open>getDataOrScore\<close> is a number or a boolean (default false); the result is
  null, the label or the whole intent.
\<close>

datatype intent_arg = Score jsnum | Flag bool

datatype intent_res = RNull | RLabel string | RIntent intent_rec

fun intent_of :: "request \<Rightarrow> intent_arg \<Rightarrow> intent_res" where
  "intent_of r a =
     (case req_intents r of
        None \<Rightarrow> RNull
      | Some [] \<Rightarrow> RNull
      | Some (i # rest) \<Rightarrow>
          (case a of
             Score s \<Rightarrow> (if num_ge (score i) s then RLabel (intent i) else RNull)
           | Flag b \<Rightarrow> (if b then RIntent i else RLabel (intent i))))"

section \<open>The Code resolver: customFn and inlineCode\<close>

text \<open>
  What the runtime gives: \<open>eval\<close> of a source text (a value, or the exception it throws),
  the message of an exception, what calling a function value on the resolver's
  arguments does (it returns a value or throws), and how an object with a \<open>then\<close> method
  settles once it is resolved (its \<open>then\<close> is called, and a thenable it resolves with is
  resolved in turn).
\<close>

record 'args runtime =
  eval_code :: "string \<Rightarrow> error + jsval"
  call_fn :: "jsval \<Rightarrow> 'args \<Rightarrow> error + jsval"
  then_fate :: "jsval \<Rightarrow> jsval settle"

fun message_of :: "error \<Rightarrow> string" where
  "message_of (TypeError m) = m"
| "message_of (Error m) = m"

text \<open>
  customFn(code, description). The description is the text the template literal makes of
  the second argument.
\<close>

definition customFn :: "'args runtime \<Rightarrow> jsval \<Rightarrow> string \<Rightarrow> error + jsval" where
  "customFn rt code description =
     (case code of
        JStr src \<Rightarrow>
          (case eval_code rt src of
             Inl e \<Rightarrow>
               Inl (Error (''Invalid inline code '' @ [CHR 0x27] @ description @ [CHR 0x27]
                            @ '': '' @ message_of e))
           | Inr resolver \<Rightarrow>
               if typeof resolver \<noteq> ''function''
               then Inl (Error (''Invalid inline code '' @ [CHR 0x27] @ description @ [CHR 0x27]
                                 @ '': must be a function''))
               else Inr resolver)
      | _ \<Rightarrow>
          Inl (Error (''Inline code '' @ [CHR 0x27] @ description @ [CHR 0x27]
                       @ '' has empty code'')))"

text \<open>
  A thenable is an object whose property \<open>then\<close> is a function. \<open>await v\<close> resolves
  \<open>v\<close>: a promise and a thenable give the value they are fulfilled with, throw what
  they are rejected with, and never resume while they are pending (\<open>None\<close>); any other
  value is the result as it is.
\<close>

fun is_thenable :: "jsval \<Rightarrow> bool" where
  "is_thenable (JObj fs) = (case map_of fs ''then'' of Some (JFun f) \<Rightarrow> True | _ \<Rightarrow> False)"
| "is_thenable v = False"

fun fate :: "jsval settle \<Rightarrow> (error + jsval) option" where
  "fate Pending = None"
| "fate (Fulfilled v) = Some (Inr v)"
| "fate (Rejected e) = Some (Inl e)"

definition await :: "'args runtime \<Rightarrow> jsval \<Rightarrow> (error + jsval) option" where
  "await rt v =
     (case v of
        JPromise p \<Rightarrow> fate p
      | _ \<Rightarrow> if is_thenable v then fate (then_fate rt v) else Some (Inr v))"

text \<open>
  The body of the async function that inlineCode returns. Its outcome is how the promise
  it returns settles: \<open>None\<close> when it never does, an error when it rejects.
\<close>

definition resolver_body ::
  "'args runtime \<Rightarrow> jsval \<Rightarrow> jsval \<Rightarrow> 'args \<Rightarrow> (error + jsval) option" where
  "resolver_body rt fn isLastIndex args =
     (case call_fn rt fn args of
        Inl e \<Rightarrow> Some (Inl e)
      | Inr ret \<Rightarrow>
          (case (if typeof ret = ''object'' \<and> ret \<noteq> JNull then await rt ret else Some (Inr ret)) of
             None \<Rightarrow> None
           | Some (Inl e) \<Rightarrow> Some (Inl e)
           | Some (Inr ret') \<Rightarrow>
               if typeof ret' \<noteq> ''undefined'' then Some (Inr ret')
               else Some (Inr (if truthy isLastIndex then JNull else JBool True))))"

text \<open>
  inlineCode(params, { isLastIndex }): the second parameter is destructured on entry, then
  customFn runs on params.code and params.description, outside any try.
  \<open>description_text\<close> is the text of the description in the message.
\<close>

definition inlineCode ::
  "'args runtime \<Rightarrow> (jsval \<Rightarrow> string) \<Rightarrow> jsval \<Rightarrow> jsval
     \<Rightarrow> error + ('args \<Rightarrow> (error + jsval) option)" where
  "inlineCode rt description_text params ctx =
     ebind (getp ctx ''isLastIndex'') (\<lambda>isLastIndex.
     ebind (getp params ''code'') (\<lambda>code.
     ebind (getp params ''description'') (\<lambda>description.
     ebind (customFn rt code (description_text description)) (\<lambda>fn.
       Inr (resolver_body rt fn isLastIndex)))))"

section \<open>Request: the constructor and action\<close>

text \<open>
  Request.js takes three helpers from src/utils.js, which is not among the sources, and
  one from the runtime. They are parameters of the model: parseActionPayload gives the
  action and the data of a payload object, quickReplyAction matches the expected
  keywords against the tokenized and the raw text, tokenize normalises a text, and
  base64_decode is \<open>Buffer.from(s, 'base64').toString('utf8')\<close>. Each helper may throw.
\<close>

record utils =
  parseActionPayload :: "jsval \<Rightarrow> error + (jsval \<times> jsval)"
  quickReplyAction :: "jsval \<Rightarrow> jsval \<Rightarrow> jsval \<Rightarrow> error + jsval"
  tokenize :: "jsval \<Rightarrow> error + jsval"
  base64_decode :: "string \<Rightarrow> string"

text \<open>
  The constructor. \<open>_referral\<close> is \<open>(postback && postback.referral) || data.referral || null\<close>.
  The fields left out (attachments, senderId, recipientId, timestamp) read \<open>data\<close> behind
  a guard and cannot throw once \<open>data.message\<close> has been read.
\<close>

definition Request_new :: "jsval \<Rightarrow> jsval \<Rightarrow> error + request" where
  "Request_new data state =
     ebind (getp data ''message'') (\<lambda>message.
     ebind (getp data ''postback'') (\<lambda>pb.
     let postback = js_or pb JNull in
     ebind (if truthy postback then getp postback ''referral'' else Inr postback) (\<lambda>pr.
     ebind (if truthy pr then Inr pr else getp data ''referral'') (\<lambda>rf.
     ebind (getp data ''optin'') (\<lambda>optin.
       Inr \<lparr> req_data = data,
             req_message = js_or message JNull,
             req_postback = postback,
             req_referral = js_or rf JNull,
             req_optin = js_or optin JNull,
             req_state = state,
             req_intents = None \<rparr>)))))"

text \<open>text(tokenized = false).\<close>

definition text_of :: "utils \<Rightarrow> request \<Rightarrow> bool \<Rightarrow> error + jsval" where
  "text_of U r tokenized =
     (if req_message r = JNull then Inr (JStr [])
      else
        ebind (if tokenized then getp (req_message r) ''text'' else Inr JUndefined) (\<lambda>t.
          if tokenized \<and> truthy t then tokenize U t
          else ebind (getp (req_message r) ''text'') (\<lambda>t'. Inr (js_or t' (JStr [])))))"

text \<open>isPassThread(): \<open>data.target_app_id || data.pass_thread_control\<close>.\<close>

definition isPassThread :: "request \<Rightarrow> error + jsval" where
  "isPassThread r =
     ebind (getp (req_data r) ''target_app_id'') (\<lambda>t.
       if truthy t then Inr t else getp (req_data r) ''pass_thread_control'')"

text \<open>_processPayload(object = {}, getData = false).\<close>

definition processPayload :: "utils \<Rightarrow> jsval \<Rightarrow> bool \<Rightarrow> error + jsval" where
  "processPayload U object getData =
     ebind (parseActionPayload U (if object = JUndefined then JObj [] else object))
       (\<lambda>(action, data). Inr (if getData then data else action))"

text \<open>
  BASE64_REGEX, \<open>^(?:[A-Za-z0-9+/]{4})*(?:[A-Za-z0-9+/]{2}==|[A-Za-z0-9+/]{3}=)?$\<close>:
  groups of four characters of the alphabet, the last group possibly padded.
\<close>

definition b64char :: "char \<Rightarrow> bool" where
  "b64char c \<longleftrightarrow>
     c \<in> set ''ABCDEFGHIJKLMNOPQRSTUVWXYZabcdefghijklmnopqrstuvwxyz0123456789+/''"

fun BASE64_REGEX :: "string \<Rightarrow> bool" where
  "BASE64_REGEX [] = True"
| "BASE64_REGEX [a, b, c, d] =
     (b64char a \<and> b64char b \<and>
      ((b64char c \<and> b64char d) \<or> (c = CHR ''='' \<and> d = CHR ''='') \<or> (b64char c \<and> d = CHR ''='')))"
| "BASE64_REGEX (a # b # c # d # rest) =
     (b64char a \<and> b64char b \<and> b64char c \<and> b64char d \<and> BASE64_REGEX rest)"
| "BASE64_REGEX s = False"

text \<open>_base64Ref(object = {}, getData = false).\<close>

definition base64Ref :: "utils \<Rightarrow> jsval \<Rightarrow> bool \<Rightarrow> error + jsval" where
  "base64Ref U object0 getData =
     (let object = (if object0 = JUndefined then JObj [] else object0) in
      ebind (if truthy object then getp object ''ref'' else Inr object) (\<lambda>ref.
        processPayload U
          (if truthy ref
           then JObj [(''payload'',
                  (case ref of
                     JStr s \<Rightarrow> if BASE64_REGEX s then JStr (base64_decode U s) else ref
                   | _ \<Rightarrow> ref))]
           else JObj [])
          getData))"

text \<open>_actionByExpectedKeywords(getData = false).\<close>

definition actionByExpectedKeywords :: "utils \<Rightarrow> request \<Rightarrow> bool \<Rightarrow> error + jsval" where
  "actionByExpectedKeywords U r getData =
     ebind (getp (req_state r) ''_expectedKeywords'') (\<lambda>kw.
       if truthy kw then
         ebind (text_of U r True) (\<lambda>t1.
         ebind (text_of U r False) (\<lambda>t2.
         ebind (quickReplyAction U kw t1 t2) (\<lambda>payload.
           if truthy payload then processPayload U payload getData else Inr JNull)))
       else Inr JNull)"

text \<open>
  action(getData = false), one definition for each \<open>if\<close> statement of the method, in the
  order of the source. Each takes the value of \<open>res\<close> before the statement and gives
  the value after it.
\<close>

definition act_referral :: "utils \<Rightarrow> request \<Rightarrow> bool \<Rightarrow> jsval \<Rightarrow> error + jsval" where
  "act_referral U r getData res =
     (if req_referral r \<noteq> JNull then
        ebind (getp (req_referral r) ''ref'') (\<lambda>ref.
          if truthy ref then processPayload U (JObj [(''payload'', ref)]) getData
          else Inr res)
      else Inr res)"

definition act_postback :: "utils \<Rightarrow> request \<Rightarrow> bool \<Rightarrow> jsval \<Rightarrow> error + jsval" where
  "act_postback U r getData res =
     (if \<not> truthy res \<and> req_postback r \<noteq> JNull
      then processPayload U (req_postback r) getData
      else Inr res)"

definition act_optin :: "utils \<Rightarrow> request \<Rightarrow> bool \<Rightarrow> jsval \<Rightarrow> error + jsval" where
  "act_optin U r getData res =
     (if \<not> truthy res \<and> req_optin r \<noteq> JNull then
        ebind (getp (req_optin r) ''ref'') (\<lambda>ref.
          if truthy ref then base64Ref U (req_optin r) getData else Inr res)
      else Inr res)"

definition act_quick_reply :: "utils \<Rightarrow> request \<Rightarrow> bool \<Rightarrow> jsval \<Rightarrow> error + jsval" where
  "act_quick_reply U r getData res =
     (if \<not> truthy res \<and> req_message r \<noteq> JNull then
        ebind (getp (req_message r) ''quick_reply'') (\<lambda>qr.
          if truthy qr then processPayload U qr getData else Inr res)
      else Inr res)"

definition act_pass_thread :: "utils \<Rightarrow> request \<Rightarrow> bool \<Rightarrow> jsval \<Rightarrow> error + jsval" where
  "act_pass_thread U r getData res =
     (if truthy res then Inr res
      else
        ebind (isPassThread r) (\<lambda>pt.
          if truthy pt then
            ebind (getp (req_data r) ''pass_thread_control'') (\<lambda>ptc.
            ebind (getp ptc ''metadata'') (\<lambda>metadata.
            ebind (if truthy metadata
                   then processPayload U (JObj [(''payload'', metadata)]) getData
                   else Inr res) (\<lambda>res'.
              Inr (if \<not> getData \<and> \<not> truthy res' then JStr ''pass-thread'' else res'))))
          else Inr res))"

definition act_keywords :: "utils \<Rightarrow> request \<Rightarrow> bool \<Rightarrow> jsval \<Rightarrow> error + jsval" where
  "act_keywords U r getData res =
     (if truthy res then Inr res
      else
        ebind (getp (req_state r) ''_expectedKeywords'') (\<lambda>kw.
          if truthy kw then actionByExpectedKeywords U r getData else Inr res))"

definition act_expected :: "utils \<Rightarrow> request \<Rightarrow> bool \<Rightarrow> jsval \<Rightarrow> error + jsval" where
  "act_expected U r getData res =
     (if truthy res then Inr res
      else
        ebind (getp (req_state r) ''_expected'') (\<lambda>expected.
          if truthy expected then processPayload U expected getData else Inr res))"

definition action :: "utils \<Rightarrow> request \<Rightarrow> bool \<Rightarrow> error + jsval" where
  "action U r getData =
     ebind (act_referral U r getData JNull) (\<lambda>res.
     ebind (act_postback U r getData res) (\<lambda>res.
     ebind (act_optin U r getData res) (\<lambda>res.
     ebind (act_quick_reply U r getData res) (\<lambda>res.
     ebind (act_pass_thread U r getData res) (\<lambda>res.
     ebind (act_keywords U r getData res) (\<lambda>res.
     ebind (act_expected U r getData res) (\<lambda>res.
       Inr (if getData then js_or res (JObj []) else js_or res JNull))))))))"

text \<open>
  The order of the specification: the seven sources of an action, each taken by itself
  (what its statement gives when nothing has been found yet), and the rule that the
  first source that yields wins. A source yields when its value is truthy; a source
  that throws ends the resolution.
\<close>

definition sources :: "utils \<Rightarrow> request \<Rightarrow> bool \<Rightarrow> (error + jsval) list" where
  "sources U r getData =
     [act_referral U r getData JNull,
      act_postback U r getData JNull,
      act_optin U r getData JNull,
      act_quick_reply U r getData JNull,
      act_pass_thread U r getData JNull,
      act_keywords U r getData JNull,
      act_expected U r getData JNull]"

fun first_yield :: "(error + jsval) list \<Rightarrow> error + jsval option" where
  "first_yield [] = Inr None"
| "first_yield (Inl e # rest) = Inl e"
| "first_yield (Inr v # rest) = (if truthy v then Inr (Some v) else first_yield rest)"

definition spec_action :: "utils \<Rightarrow> request \<Rightarrow> bool \<Rightarrow> error + jsval" where
  "spec_action U r getData =
     ebind (first_yield (sources U r getData)) (\<lambda>found.
       Inr (case found of
              Some v \<Rightarrow> v
            | None \<Rightarrow> if getData then JObj [] else JNull))"

text \<open>
  The statements of a method run in sequence: each takes the value of \<open>res\<close> the one
  before left, and a throw ends the run.
\<close>

fun run_steps :: "jsval \<Rightarrow> (jsval \<Rightarrow> error + jsval) list \<Rightarrow> error + jsval" where
  "run_steps res [] = Inr res"
| "run_steps res (s # ss) = ebind (s res) (\<lambda>res'. run_steps res' ss)"

text \<open>
  Two outcomes of a statement agree when both throw the same error, both give the same
  truthy value, or both give a falsy value.
\<close>

fun agree :: "error + jsval \<Rightarrow> error + jsval \<Rightarrow> bool" where
  "agree (Inl e) (Inl e') = (e = e')"
| "agree (Inr v) (Inr w) = (if truthy v then v = w else \<not> truthy w)"
| "agree a b = False"

text \<open>The statements of action after the first, in the order of the source.\<close>

definition later_steps :: "utils \<Rightarrow> request \<Rightarrow> bool \<Rightarrow> (jsval \<Rightarrow> error + jsval) list" where
  "later_steps U r getData =
     [act_postback U r getData, act_optin U r getData, act_quick_reply U r getData,
      act_pass_thread U r getData, act_keywords U r getData, act_expected U r getData]"

section \<open>resolvers/utils.js: texts and their renderers\<close>

text \<open>
  What the module takes from outside. \<open>hbs.compile\<close> (src/resolvers/hbs.js is not among
  the sources) turns a template source into a function value, here the identifier of
  that function, or throws. Calling a function value on a state renders a text or
  throws. \<open>Math.random()\<close> is the runtime's generator: call number \<open>n\<close> of a run returns a
  double in [0, 1). Every such double is \<open>m / 2^(53 + j)\<close> for a significand \<open>m < 2^53\<close>
  and a shift \<open>j\<close>; \<open>random_draw n\<close> gives the two (the significand is taken modulo
  \<open>2^53\<close>).
\<close>

record engine =
  hbs_compile :: "jsval \<Rightarrow> error + nat"
  call_template :: "jsval \<Rightarrow> jsval \<Rightarrow> error + jsval"
  random_draw :: "nat \<Rightarrow> nat \<times> nat"

text \<open>
  The arithmetic of doubles. A product of two doubles is the exact product rounded to
  the nearest double, that is to 53 significant bits, a tie going to the even
  significand. \<open>round_to_double p\<close> is that rounding of a natural number \<open>p\<close>: with
  \<open>s\<close> bits too many, \<open>p\<close> is \<open>q * 2^s + r\<close> and rounds to \<open>q * 2^s\<close> or \<open>(q + 1) * 2^s\<close>.
\<close>

definition round_to_double :: "nat \<Rightarrow> nat" where
  "round_to_double p =
     (if p < 2 ^ 53 then p
      else
        (let s = floorlog 2 p - 53; q = p div 2 ^ s; r = p mod 2 ^ s
         in (if 2 ^ s < 2 * r \<or> (2 * r = 2 ^ s \<and> odd q) then q + 1 else q) * 2 ^ s))"

text \<open>
  A computation that may call \<open>Math.random\<close> takes the number of calls made so far and
  returns it with its result; it returns it also when it throws.
\<close>

fun sbind :: "(error + 'a) \<times> nat \<Rightarrow> ('a \<Rightarrow> nat \<Rightarrow> (error + 'b) \<times> nat) \<Rightarrow> (error + 'b) \<times> nat" where
  "sbind (Inl e, n) f = (Inl e, n)"
| "sbind (Inr v, n) f = f v n"

text \<open>
  Strict equality \<open>a === b\<close>, for a value of the translations against a value of the
  state: two objects or arrays are never the same object, and not-a-number equals
  nothing.
\<close>

fun strict_eq :: "jsval \<Rightarrow> jsval \<Rightarrow> bool" where
  "strict_eq (JObj fs) b = False"
| "strict_eq (JArr xs) b = False"
| "strict_eq (JPromise p) b = False"
| "strict_eq (JNum NaN) b = False"
| "strict_eq a b = (a = b)"

definition isArrayOfObjects :: "jsval \<Rightarrow> bool" where
  "isArrayOfObjects translations =
     (case translations of
        JArr (t0 # rest) \<Rightarrow> typeof t0 = ''object'' \<and> t0 \<noteq> JNull
      | _ \<Rightarrow> False)"

text \<open>isTextObjectEmpty(text). A truthy value has properties to read, so \<open>text.t\<close> does not throw.\<close>

definition isTextObjectEmpty :: "jsval \<Rightarrow> bool" where
  "isTextObjectEmpty txt =
     (if \<not> truthy txt then True
      else
        (case getp txt ''t'' of
           Inl e \<Rightarrow> True
         | Inr t \<Rightarrow>
             if \<not> truthy t then True
             else (case t of JArr ts \<Rightarrow> \<not> list_ex truthy ts | _ \<Rightarrow> False)))"

text \<open>\<open>translations.find(t => t.l === lang)\<close>: reading \<open>l\<close> of a null element throws.\<close>

fun find_lang :: "jsval list \<Rightarrow> jsval \<Rightarrow> error + jsval" where
  "find_lang [] lang = Inr JUndefined"
| "find_lang (t # ts) lang =
     ebind (getp t ''l'') (\<lambda>l. if strict_eq l lang then Inr t else find_lang ts lang)"

text \<open>getLanguageText(translations, lang = null).\<close>

definition getLanguageText :: "jsval \<Rightarrow> jsval \<Rightarrow> error + jsval" where
  "getLanguageText translations lang0 =
     (let lang = (if lang0 = JUndefined then JNull else lang0) in
      ebind
        (if isArrayOfObjects translations then
           (case translations of
              JArr ts \<Rightarrow>
                ebind (if truthy lang then find_lang ts lang else Inr JUndefined) (\<lambda>found.
                  let found' =
                    (if isTextObjectEmpty found
                     then (case List.find (\<lambda>t. \<not> isTextObjectEmpty t) ts of
                             None \<Rightarrow> JUndefined
                           | Some t \<Rightarrow> t)
                     else found)
                  in if truthy found' then getp found' ''t'' else Inr JNull)
            | _ \<Rightarrow> Inr translations)
         else Inr translations)
        (\<lambda>foundText.
           case foundText of
             JArr fs \<Rightarrow>
               if filter truthy fs = [] then Inr (JStr [])
               else Inr (JArr (filter truthy fs))
           | _ \<Rightarrow> Inr (js_or foundText (JStr []))))"

text \<open>
  The renderer that randomizedCompiler returns: a compiled template, or the closure over
  the array \<open>texts\<close> of the variants, which it compiles one at a time, in place.
\<close>

datatype renderer = Template nat | Randomized "jsval list"

definition randomizedCompiler :: "engine \<Rightarrow> jsval \<Rightarrow> jsval \<Rightarrow> error + renderer" where
  "randomizedCompiler E txt lang =
     ebind (getLanguageText txt lang) (\<lambda>texts.
       case texts of
         JArr [t] \<Rightarrow> ebind (hbs_compile E t) (\<lambda>f. Inr (Template f))
       | JArr ts \<Rightarrow> Inr (Randomized ts)
       | _ \<Rightarrow> ebind (hbs_compile E texts) (\<lambda>f. Inr (Template f)))"

text \<open>
  \<open>Math.floor(Math.random() * texts.length)\<close>: the length is a double, the product of
  \<open>m / 2^(53 + j)\<close> and the length is the rounding of \<open>m * length\<close> over \<open>2^(53 + j)\<close>
  (a product too small for 53 bits is below 1 either way), and the floor is exact. And
  the assignment \<open>texts[index] = v\<close>, which extends the array when the index is not in
  it.
\<close>

definition variant_index :: "engine \<Rightarrow> nat \<Rightarrow> nat \<Rightarrow> nat" where
  "variant_index E n len =
     (case random_draw E n of
        (m, j) \<Rightarrow> round_to_double ((m mod 2 ^ 53) * len) div 2 ^ (53 + j))"

definition array_get :: "jsval list \<Rightarrow> nat \<Rightarrow> jsval" where
  "array_get xs i = (if i < length xs then xs ! i else JUndefined)"

definition array_set :: "jsval list \<Rightarrow> nat \<Rightarrow> jsval \<Rightarrow> jsval list" where
  "array_set xs i v =
     (if i < length xs then xs[i := v]
      else xs @ replicate (i - length xs) JUndefined @ [v])"

text \<open>
  Calling a renderer on a state. The result comes with the renderer after the call (its
  array may have a variant compiled) and the number of calls of \<open>Math.random\<close>.
\<close>

fun call_renderer ::
  "engine \<Rightarrow> renderer \<Rightarrow> jsval \<Rightarrow> nat \<Rightarrow> (error + jsval) \<times> renderer \<times> nat" where
  "call_renderer E (Template f) state n = (call_template E (JFun f) state, Template f, n)"
| "call_renderer E (Randomized texts) state n =
     (let index = variant_index E n (length texts);
          t = array_get texts index
      in if typeof t \<noteq> ''function'' then
           (case hbs_compile E t of
              Inl e \<Rightarrow> (Inl e, Randomized texts, Suc n)
            | Inr f \<Rightarrow>
                (call_template E (JFun f) state,
                 Randomized (array_set texts index (JFun f)), Suc n))
         else (call_template E t state, Randomized texts, Suc n))"

text \<open>
  cachedTranslatedCompilator(text) returns a closure over a Map from the language key to
  a renderer. A call of the closure takes the Map as it is and returns it as the call
  leaves it. The key is \<open>state.lang\<close>, or \<open>'-'\<close> when that is undefined.
\<close>

definition cache_key :: "jsval \<Rightarrow> jsval" where
  "cache_key lang = (if lang = JUndefined then JStr ''-'' else lang)"

definition cachedTranslatedCompilator ::
  "engine \<Rightarrow> jsval \<Rightarrow> jsval \<Rightarrow> (jsval \<rightharpoonup> renderer) \<Rightarrow> nat
     \<Rightarrow> (error + jsval) \<times> (jsval \<rightharpoonup> renderer) \<times> nat" where
  "cachedTranslatedCompilator E txt state cache n =
     (case getp state ''lang'' of
        Inl e \<Rightarrow> (Inl e, cache, n)
      | Inr lang \<Rightarrow>
          (case (case cache (cache_key lang) of
                   Some renderer \<Rightarrow> Inr renderer
                 | None \<Rightarrow> randomizedCompiler E txt lang) of
             Inl e \<Rightarrow> (Inl e, cache, n)
           | Inr renderer \<Rightarrow>
               (case call_renderer E renderer state n of
                  (res, renderer', n') \<Rightarrow> (res, cache(cache_key lang \<mapsto> renderer'), n'))))"

text \<open>getText(text, state): a renderer of its own for every call.\<close>

definition getText :: "engine \<Rightarrow> jsval \<Rightarrow> jsval \<Rightarrow> nat \<Rightarrow> (error + jsval) \<times> nat" where
  "getText E txt state n =
     (case ebind (getp state ''lang'') (\<lambda>lang. randomizedCompiler E txt lang) of
        Inl e \<Rightarrow> (Inl e, n)
      | Inr renderer \<Rightarrow>
          (case call_renderer E renderer state n of (res, renderer', n') \<Rightarrow> (res, n')))"

text \<open>
  What rendering one variant gives: a variant that is a function already is called, any
  other is compiled first.
\<close>

definition render_variant :: "engine \<Rightarrow> jsval \<Rightarrow> jsval \<Rightarrow> error + jsval" where
  "render_variant E t state =
     (if typeof t \<noteq> ''function'' then
        ebind (hbs_compile E t) (\<lambda>f. call_template E (JFun f) state)
      else call_template E t state)"

text \<open>
  A cached renderer follows the renderer that randomizedCompiler built: it is that
  template, or its array with some of the variants replaced by what they compile to.
\<close>

fun follows :: "engine \<Rightarrow> renderer \<Rightarrow> renderer \<Rightarrow> bool" where
  "follows E (Template f) (Template f') = (f = f')"
| "follows E (Randomized ts0) (Randomized ts) =
     (ts0 \<noteq> [] \<and>
      list_all2
        (\<lambda>t0 t. t = t0 \<or>
           (typeof t0 \<noteq> ''function'' \<and> (\<exists>f. hbs_compile E t0 = Inr f \<and> t = JFun f)))
        ts0 ts)"
| "follows E r0 r = False"

text \<open>
  What a call of a renderer gives, told from the renderer as it was built: a template is
  called, without a draw; of several variants the one at the index drawn is rendered.
\<close>

definition outcome ::
  "engine \<Rightarrow> renderer \<Rightarrow> jsval \<Rightarrow> nat \<Rightarrow> error + jsval \<Rightarrow> nat \<Rightarrow> bool" where
  "outcome E r0 state n res n' =
     (case r0 of
        Template f \<Rightarrow> res = call_template E (JFun f) state \<and> n' = n
      | Randomized ts \<Rightarrow>
          res = render_variant E (array_get ts (variant_index E n (length ts))) state \<and> n' = Suc n)"

definition cache_ok :: "engine \<Rightarrow> jsval \<Rightarrow> (jsval \<rightharpoonup> renderer) \<Rightarrow> bool" where
  "cache_ok E txt cache \<longleftrightarrow>
     (\<forall>key renderer. cache key = Some renderer \<longrightarrow>
        (\<exists>lang r0. cache_key lang = key \<and> randomizedCompiler E txt lang = Inr r0 \<and>
                   follows E r0 renderer))"

section \<open>resolvers/utils.js: processButtons\<close>

text \<open>
  The element \<open>elem\<close> is a template builder (src/templates is not among the sources): of
  its methods processButtons calls urlButton, postBackButton and shareButton, and the
  model keeps the calls it receives, in order. The Map \<open>linksMap\<close> takes a route
  identifier to the address of the route; \<open>linksTranslator\<close> is the caller's.
\<close>

datatype emitted =
    UrlButton jsval jsval bool jsval
  | PostBackButton jsval jsval
  | ShareButton jsval

definition Map_get :: "(jsval \<rightharpoonup> jsval) \<Rightarrow> jsval \<Rightarrow> jsval" where
  "Map_get m k = (case m k of None \<Rightarrow> JUndefined | Some v \<Rightarrow> v)"

text \<open>The callback of \<open>buttons.forEach\<close>, for one button.\<close>

definition process_button ::
  "engine \<Rightarrow> (jsval \<Rightarrow> jsval \<Rightarrow> jsval \<Rightarrow> bool \<Rightarrow> error + jsval) \<Rightarrow> jsval \<Rightarrow> (jsval \<rightharpoonup> jsval)
     \<Rightarrow> jsval \<Rightarrow> jsval \<Rightarrow> emitted list \<Rightarrow> nat \<Rightarrow> (error + emitted list) \<times> nat" where
  "process_button E linksTranslator state linksMap senderId button elem n =
     sbind (ebind (getp button ''title'') (\<lambda>btnTitle.
            ebind (getp button ''action'') (\<lambda>btnAction. Inr (btnTitle, btnAction))), n)
       (\<lambda>(btnTitle, btnAction) n.
     sbind (getText E btnTitle state n) (\<lambda>btnTitleText n.
     sbind (getText E btnTitle (JObj [(''lang'', JNull)]) n) (\<lambda>defaultText n.
     sbind (ebind (getp btnAction ''type'') (\<lambda>type.
            ebind (getp btnAction ''url'') (\<lambda>url.
            ebind (getp btnAction ''webviewHeight'') (\<lambda>wh.
            ebind (getp btnAction ''targetRouteId'') (\<lambda>targetRouteId.
              Inr (type, url, if wh = JUndefined then JStr ''tall'' else wh, targetRouteId))))), n)
       (\<lambda>(type, url, webviewHeight, targetRouteId) n.
          let isExtUrl = (type = JStr ''web_url_extension'') in
          if type = JStr ''web_url'' \<or> type = JStr ''web_url_extension'' then
            sbind (getText E url state n) (\<lambda>urlText n.
            sbind (linksTranslator senderId defaultText urlText isExtUrl, n) (\<lambda>urlText' n.
              (Inr (elem @ [UrlButton btnTitleText urlText' isExtUrl webviewHeight]), n)))
          else if type = JStr ''postback'' then
            (let postbackAction = Map_get linksMap targetRouteId in
             if postbackAction = JStr ''/''
             then (Inr (elem @ [PostBackButton btnTitleText (JStr ''./'')]), n)
             else if \<not> truthy postbackAction then (Inr elem, n)
             else (Inr (elem @ [PostBackButton btnTitleText postbackAction]), n))
          else if type = JStr ''element_share'' then
            (Inr (elem @ [ShareButton btnTitleText]), n)
          else (Inr elem, n)))))"

fun processButtons ::
  "engine \<Rightarrow> (jsval \<Rightarrow> jsval \<Rightarrow> jsval \<Rightarrow> bool \<Rightarrow> error + jsval) \<Rightarrow> jsval \<Rightarrow> (jsval \<rightharpoonup> jsval)
     \<Rightarrow> jsval \<Rightarrow> jsval list \<Rightarrow> emitted list \<Rightarrow> nat \<Rightarrow> (error + emitted list) \<times> nat" where
  "processButtons E linksTranslator state linksMap senderId [] elem n = (Inr elem, n)"
| "processButtons E linksTranslator state linksMap senderId (button # buttons) elem n =
     sbind (process_button E linksTranslator state linksMap senderId button elem n)
       (\<lambda>elem' n'. processButtons E linksTranslator state linksMap senderId buttons elem' n')"

section \<open>Responder\<close>

text \<open>
  Objects that are shared between the caller and a responder live in a heap, at
  addresses: the conversation state of the caller, the object \<open>data\<close> given to the
  constructor, and the object \<open>newState\<close> the constructor creates. The messages handed to
  \<open>messageSender.send\<close> are kept in order.
\<close>

type_synonym addr = nat

type_synonym obj = "(string \<times> jsval) list"

record world =
  heap :: "addr \<rightharpoonup> obj"
  next_addr :: addr
  sent :: "jsval list"

text \<open>
  What Responder.js takes from outside: the call of the translator function, util.format,
  makeQuickReplies and makeAbsolute of src/utils.js (not among the sources),
  JSON.stringify, the text a template literal makes of a value, and the arithmetic on
  doubles of _getTypingTimeForText (given the autoTyping options and the text).
\<close>

record host =
  call_translator :: "jsval \<Rightarrow> jsval \<Rightarrow> error + jsval"
  util_format :: "jsval \<Rightarrow> jsval list \<Rightarrow> jsval"
  makeQuickReplies :: "jsval \<Rightarrow> jsval \<Rightarrow> jsval \<Rightarrow> jsval list \<Rightarrow> error + (jsval \<times> jsval)"
  makeAbsolute :: "jsval \<Rightarrow> jsval \<Rightarrow> error + jsval"
  JSON_stringify :: "jsval \<Rightarrow> error + jsval"
  template_text :: "jsval \<Rightarrow> string"
  typing_time :: "jsval \<Rightarrow> jsval \<Rightarrow> jsval"

text \<open>
  The fields of a responder. \<open>newState\<close> and \<open>data_ref\<close> (the source's \<open>_data\<close>) are
  addresses; \<open>options\<close> is the responder's own object; \<open>translator\<close> is the source's
  \<open>_t\<close>.
\<close>

record responder =
  senderId :: jsval
  token :: jsval
  newState :: addr
  path :: jsval
  routePath :: jsval
  options :: obj
  translator :: jsval
  quickReplyCollector :: "jsval list"
  data_ref :: addr
  messagingType :: jsval
  tag :: jsval
  firstTypingSkipped :: bool

text \<open>The name of the property that holds element \<open>n\<close> of an array: \<open>n\<close> in decimal.\<close>

definition digit :: "nat \<Rightarrow> char" where
  "digit d = ''0123456789'' ! (d mod 10)"

fun index_name :: "nat \<Rightarrow> string" where
  "index_name n = (if 9 < n then index_name (n div 10) else []) @ [digit n]"

text \<open>
  Object.assign(target, source) copies the own enumerable properties of the source: the
  properties of an object, the elements of an array and the characters of a string under
  their indices, nothing of any other value.
\<close>

fun own_props :: "jsval \<Rightarrow> obj" where
  "own_props (JObj fs) = fs"
| "own_props (JArr xs) = zip (map index_name [0..<length xs]) xs"
| "own_props (JStr s) = zip (map index_name [0..<length s]) (map (\<lambda>c. JStr [c]) s)"
| "own_props v = []"

definition object_assign :: "obj \<Rightarrow> obj \<Rightarrow> obj" where
  "object_assign target source = fold (\<lambda>(k, v). AList.update k v) source target"

definition lookup :: "obj \<Rightarrow> string \<Rightarrow> jsval" where
  "lookup fs k = (case map_of fs k of None \<Rightarrow> JUndefined | Some v \<Rightarrow> v)"

text \<open>
  An argument that is an object is given by value or as a reference to an object of the
  heap (the caller may hand over its state object itself).
\<close>

datatype arg = Val jsval | Ref addr

definition arg_props :: "world \<Rightarrow> arg \<Rightarrow> obj" where
  "arg_props w a =
     (case a of
        Val v \<Rightarrow> own_props v
      | Ref p \<Rightarrow> (case heap w p of None \<Rightarrow> [] | Some fs \<Rightarrow> fs))"

text \<open>The two effects on the world: Object.assign into the object at an address, and a send.\<close>

definition assign_at :: "addr \<Rightarrow> obj \<Rightarrow> world \<Rightarrow> world" where
  "assign_at p source w =
     (case heap w p of
        None \<Rightarrow> w
      | Some target \<Rightarrow> w\<lparr>heap := (heap w)(p \<mapsto> object_assign target source)\<rparr>)"

text \<open>_send(data).\<close>

definition send_msg :: "responder \<Rightarrow> obj \<Rightarrow> world \<Rightarrow> world" where
  "send_msg r d w =
     (let d1 = (if \<not> truthy (lookup d ''messagingType'')
                then AList.update ''messaging_type'' (messagingType r) d else d);
          d2 = (if \<not> truthy (lookup d1 ''tag'') \<and> truthy (tag r)
                then AList.update ''tag'' (tag r) d1 else d1)
      in w\<lparr>sent := sent w @ [JObj d2]\<rparr>)"

text \<open>
  The constructor: \<open>newState\<close> is a new empty object; \<open>data\<close> is the caller's object, or
  a new empty object when none is given; the options are merged into the defaults. The
  function value 0 stands for the default translator \<open>w => w\<close>.
\<close>

definition Responder_new ::
  "jsval \<Rightarrow> jsval \<Rightarrow> jsval \<Rightarrow> addr option \<Rightarrow> world \<Rightarrow> responder \<times> world" where
  "Responder_new sender tok opts data w =
     (let w0 = (case data of
                  Some p \<Rightarrow> w
                | None \<Rightarrow> w\<lparr>heap := (heap w)(next_addr w \<mapsto> []), next_addr := Suc (next_addr w)\<rparr>);
          d = (case data of Some p \<Rightarrow> p | None \<Rightarrow> next_addr w);
          a = next_addr w0;
          w1 = w0\<lparr>heap := (heap w0)(a \<mapsto> []), next_addr := Suc a\<rparr>;
          o1 = object_assign [(''translator'', JFun 0), (''appUrl'', JStr [])] (own_props opts);
          o2 = (if truthy (lookup o1 ''autoTyping'')
                then AList.update ''autoTyping''
                       (JObj (object_assign
                                [(''time'', JNum (Fin 450)), (''perCharacters'', JNum (Fin 24)),
                                 (''minTime'', JNum (Fin 400)), (''maxTime'', JNum (Fin 1400))]
                                (own_props (lookup o1 ''autoTyping''))))
                       o1
                else o1)
      in (\<lparr> senderId = sender, token = tok, newState = a, path = JStr [], routePath = JStr [],
             options = o2, translator = lookup o2 ''translator'', quickReplyCollector = [],
             data_ref = d, messagingType = JStr ''RESPONSE'', tag = JNull,
             firstTypingSkipped = False \<rparr>, w1))"

text \<open>setState(object) and setData(data).\<close>

definition setState :: "arg \<Rightarrow> responder \<Rightarrow> world \<Rightarrow> world" where
  "setState object r w = assign_at (newState r) (arg_props w object) w"

definition setData :: "arg \<Rightarrow> responder \<Rightarrow> world \<Rightarrow> world" where
  "setData d r w = assign_at (data_ref r) (arg_props w d) w"

text \<open>_senderAction(action), wait(ms) and _autoTypingIfEnabled(text).\<close>

definition senderAction :: "string \<Rightarrow> responder \<Rightarrow> world \<Rightarrow> world" where
  "senderAction a r w =
     send_msg r [(''recipient'', JObj [(''id'', senderId r)]), (''sender_action'', JStr a)] w"

definition wait_ms :: "jsval \<Rightarrow> responder \<Rightarrow> world \<Rightarrow> world" where
  "wait_ms ms r w = send_msg r [(''wait'', if ms = JUndefined then JNum (Fin 600) else ms)] w"

definition getTypingTimeForText :: "host \<Rightarrow> responder \<Rightarrow> jsval \<Rightarrow> jsval" where
  "getTypingTimeForText H r txt =
     (if txt = JBool False then JNum (Fin 1)
      else typing_time H (lookup (options r) ''autoTyping'') txt)"

definition autoTypingIfEnabled :: "host \<Rightarrow> jsval \<Rightarrow> responder \<Rightarrow> world \<Rightarrow> responder \<times> world" where
  "autoTypingIfEnabled H txt r w =
     (if \<not> truthy (lookup (options r) ''autoTyping'') then (r, w)
      else if messagingType r \<noteq> JStr ''RESPONSE'' \<and> \<not> firstTypingSkipped r
      then (r\<lparr>firstTypingSkipped := True\<rparr>, w)
      else (r, wait_ms (getTypingTimeForText H r txt) r (senderAction ''typing_on'' r w)))"

text \<open>
  The operations of a responder. Each returns the responder and the world as it leaves
  them, also when it throws; its value is \<open>this\<close>, which the model does not return.
  receipt, button, genericTemplate and list only construct a template builder
  (src/templates is not among the sources) around a callback to \<open>template\<close>.
\<close>

datatype op =
    SetMessgingType jsval jsval
  | SetData arg
  | SetPath jsval jsval
  | Text jsval "jsval list"
  | SetState arg
  | AddQuickReply jsval jsval jsval jsval
  | Expected jsval jsval
  | Image jsval jsval
  | Video jsval jsval
  | File jsval jsval
  | TemplateMsg jsval
  | Wait jsval
  | TypingOn
  | TypingOff
  | Seen
  | PassThread jsval jsval
  | TakeThead jsval

text \<open>text(text, ...quickReplies).\<close>

definition text_op ::
  "host \<Rightarrow> jsval \<Rightarrow> jsval list \<Rightarrow> responder \<Rightarrow> world \<Rightarrow> (error + unit) \<times> responder \<times> world" where
  "text_op H txt args r w =
     (let popped = (args \<noteq> [] \<and> typeof (last args) = ''object'' \<and> last args \<noteq> JNull);
          replies = (if popped then last args else JNull);
          quickReplies = (if popped then butlast args else args)
      in case call_translator H (translator r) txt of
           Inl e \<Rightarrow> (Inl e, r, w)
         | Inr translatedText \<Rightarrow>
             (let msgText =
                    (if quickReplies \<noteq> []
                     then util_format H translatedText
                            (map (\<lambda>a. if a \<noteq> JNull \<and> a \<noteq> JUndefined then a else JStr [])
                               quickReplies)
                     else translatedText)
              in if truthy replies \<or> quickReplyCollector r \<noteq> [] then
                   (case makeQuickReplies H (js_or replies (JArr [])) (path r) (translator r)
                           (quickReplyCollector r) of
                      Inl e \<Rightarrow> (Inl e, r, w)
                    | Inr (qrs, expectedKeywords) \<Rightarrow>
                        (let r1 = r\<lparr>quickReplyCollector := []\<rparr>;
                             w1 = setState (Val (JObj [(''_expectedKeywords'', expectedKeywords)])) r1 w;
                             (r2, w2) = autoTypingIfEnabled H msgText r1 w1
                         in (Inr (), r2,
                             send_msg r2
                               [(''recipient'', JObj [(''id'', senderId r2)]),
                                (''message'', JObj [(''text'', msgText), (''quick_replies'', qrs)])]
                               w2)))
                 else
                   (let (r2, w2) = autoTypingIfEnabled H msgText r w
                    in (Inr (), r2,
                        send_msg r2
                          [(''recipient'', JObj [(''id'', senderId r2)]),
                           (''message'', JObj [(''text'', msgText)])]
                          w2))))"

text \<open>addQuickReply(action, title, data = {}, prepend = false).\<close>

definition addQuickReply ::
  "host \<Rightarrow> jsval \<Rightarrow> jsval \<Rightarrow> jsval \<Rightarrow> jsval \<Rightarrow> responder \<Rightarrow> world
     \<Rightarrow> (error + unit) \<times> responder \<times> world" where
  "addQuickReply H act title d prepend r w =
     (case makeAbsolute H act (path r) of
        Inl e \<Rightarrow> (Inl e, r, w)
      | Inr absolute \<Rightarrow>
          (Inr (),
           r\<lparr>quickReplyCollector := quickReplyCollector r @
                [JObj (object_assign
                         (object_assign [(''action'', absolute), (''title'', title)]
                            (own_props (if d = JUndefined then JObj [] else d)))
                         (if truthy prepend then [(''_prepend'', JBool True)] else []))]\<rparr>,
           w))"

text \<open>expected(action, data = {}).\<close>

definition expected ::
  "host \<Rightarrow> jsval \<Rightarrow> jsval \<Rightarrow> responder \<Rightarrow> world \<Rightarrow> (error + unit) \<times> responder \<times> world" where
  "expected H act d r w =
     (if \<not> truthy act then (Inr (), r, setState (Val (JObj [(''_expected'', JNull)])) r w)
      else
        (case makeAbsolute H act (path r) of
           Inl e \<Rightarrow> (Inl e, r, w)
         | Inr absolute \<Rightarrow>
             (Inr (), r,
              setState
                (Val (JObj [(''_expected'',
                        JObj [(''action'', absolute),
                              (''data'', if d = JUndefined then JObj [] else d)])]))
                r w)))"

text \<open>
  _attachment(attachmentUrl, type, reusable = false), behind image, video and file. The
  test \<open>url.match(/^https?:\/\//)\<close> throws unless the url is a string.
\<close>

definition is_http :: "string \<Rightarrow> bool" where
  "is_http s \<longleftrightarrow> take 7 s = ''http://'' \<or> take 8 s = ''https://''"

definition attachment ::
  "host \<Rightarrow> jsval \<Rightarrow> string \<Rightarrow> jsval \<Rightarrow> responder \<Rightarrow> world \<Rightarrow> (error + unit) \<times> responder \<times> world" where
  "attachment H attachmentUrl type reusable0 r w =
     (let reusable = (if reusable0 = JUndefined then JBool False else reusable0) in
      case attachmentUrl of
        JStr s \<Rightarrow>
          (let url = (if is_http s then s else template_text H (lookup (options r) ''appUrl'') @ s);
               (r1, w1) = autoTypingIfEnabled H (if truthy reusable then JNull else JBool False) r w
           in (Inr (), r1,
               send_msg r1
                 [(''recipient'', JObj [(''id'', senderId r1)]),
                  (''message'',
                     JObj [(''attachment'',
                        JObj [(''type'', JStr type),
                              (''payload'', JObj [(''url'', JStr url), (''is_reusable'', reusable)])])])]
                 w1))
      | _ \<Rightarrow> (Inl (TypeError ''url.match is not a function''), r, w))"

text \<open>template(payload).\<close>

definition template_op :: "host \<Rightarrow> jsval \<Rightarrow> responder \<Rightarrow> world \<Rightarrow> responder \<times> world" where
  "template_op H payload r w =
     (let (r1, w1) = autoTypingIfEnabled H JNull r w
      in (r1,
          send_msg r1
            [(''recipient'', JObj [(''id'', senderId r1)]),
             (''message'',
                JObj [(''attachment'', JObj [(''type'', JStr ''template''), (''payload'', payload)])])]
            w1))"

text \<open>passThread(targetAppId, data = null) and takeThead(data = null).\<close>

definition thread_metadata :: "host \<Rightarrow> jsval \<Rightarrow> error + jsval" where
  "thread_metadata H data0 =
     (let d = (if data0 = JUndefined then JNull else data0) in
      if d \<noteq> JNull \<and> typeof d \<noteq> ''string'' then JSON_stringify H d else Inr d)"

definition passThread ::
  "host \<Rightarrow> jsval \<Rightarrow> jsval \<Rightarrow> responder \<Rightarrow> world \<Rightarrow> (error + unit) \<times> responder \<times> world" where
  "passThread H targetAppId d r w =
     (case thread_metadata H d of
        Inl e \<Rightarrow> (Inl e, r, w)
      | Inr metadata \<Rightarrow>
          (Inr (), r,
           send_msg r
             [(''recipient'', JObj [(''id'', senderId r)]),
              (''target_app_id'', targetAppId), (''metadata'', metadata)]
             w))"

definition takeThead ::
  "host \<Rightarrow> jsval \<Rightarrow> responder \<Rightarrow> world \<Rightarrow> (error + unit) \<times> responder \<times> world" where
  "takeThead H d r w =
     (case thread_metadata H d of
        Inl e \<Rightarrow> (Inl e, r, w)
      | Inr metadata \<Rightarrow>
          (Inr (), r,
           send_msg r
             [(''recipient'', JObj [(''id'', senderId r)]),
              (''take_thread_control'', JObj [(''metadata'', metadata)])]
             w))"

text \<open>One operation, and a sequence of operations, which a throw ends.\<close>

fun exec :: "host \<Rightarrow> op \<Rightarrow> responder \<Rightarrow> world \<Rightarrow> (error + unit) \<times> responder \<times> world" where
  "exec H (SetMessgingType mt tg) r w =
     (Inr (), r\<lparr>messagingType := mt, tag := (if tg = JUndefined then JNull else tg)\<rparr>, w)"
| "exec H (SetData d) r w = (Inr (), r, setData d r w)"
| "exec H (SetPath absolutePath rp) r w =
     (Inr (), r\<lparr>path := absolutePath, routePath := (if rp = JUndefined then JStr [] else rp)\<rparr>, w)"
| "exec H (Text txt args) r w = text_op H txt args r w"
| "exec H (SetState object) r w = (Inr (), r, setState object r w)"
| "exec H (AddQuickReply act title d prepend) r w = addQuickReply H act title d prepend r w"
| "exec H (Expected act d) r w = expected H act d r w"
| "exec H (Image url reusable) r w = attachment H url ''image'' reusable r w"
| "exec H (Video url reusable) r w = attachment H url ''video'' reusable r w"
| "exec H (File url reusable) r w = attachment H url ''file'' reusable r w"
| "exec H (TemplateMsg payload) r w = (case template_op H payload r w of (r1, w1) \<Rightarrow> (Inr (), r1, w1))"
| "exec H (Wait ms) r w = (Inr (), r, wait_ms ms r w)"
| "exec H TypingOn r w = (Inr (), r, senderAction ''typing_on'' r w)"
| "exec H TypingOff r w = (Inr (), r, senderAction ''typing_off'' r w)"
| "exec H Seen r w = (Inr (), r, senderAction ''mark_seen'' r w)"
| "exec H (PassThread targetAppId d) r w = passThread H targetAppId d r w"
| "exec H (TakeThead d) r w = takeThead H d r w"

fun exec_all :: "host \<Rightarrow> op list \<Rightarrow> responder \<Rightarrow> world \<Rightarrow> (error + unit) \<times> responder \<times> world" where
  "exec_all H [] r w = (Inr (), r, w)"
| "exec_all H (x # xs) r w =
     (case exec H x r w of
        (Inl e, r1, w1) \<Rightarrow> (Inl e, r1, w1)
      | (Inr u, r1, w1) \<Rightarrow> exec_all H xs r1 w1)"

text \<open>
  The frame of the operations: the responder keeps its two addresses, and every object of
  the heap other than \<open>newState\<close> and \<open>data\<close> is as it was.
\<close>

definition frame :: "responder \<Rightarrow> world \<Rightarrow> responder \<Rightarrow> world \<Rightarrow> bool" where
  "frame r w r' w' \<longleftrightarrow>
     newState r' = newState r \<and> data_ref r' = data_ref r \<and>
     (\<forall>q. q \<noteq> newState r \<and> q \<noteq> data_ref r \<longrightarrow> heap w' q = heap w q)"

section \<open>ConfigCache: single-flight get\<close>

text \<open>
  Modelled from the spec: the configuration cache is code of src/BuildRouter.js, which is
  not among the sources (only its test is). The model follows section 4.5 of the
  specification. An entry holds the cached value, the time it was fetched at and the
  fetch in flight, if any. \<open>get(key)\<close>: a cached value younger than the time-to-live is
  returned at once; otherwise, when a fetch is in flight for the key, the caller awaits
  that fetch; otherwise a fetch is started and recorded as in flight, and the caller
  awaits it. When a fetch completes, its result is stored with the current time, the
  marker is cleared and every caller that awaits it receives the result; when it fails,
  the marker is cleared, the cached value stays, and the callers receive the failure.
  \<open>invalidate(key)\<close> clears the value and the time, not the fetch in flight.

  The tasks are cooperative: a call of \<open>get\<close> runs up to its await without
  interruption, so a run is a sequence of events. The remote fetches are numbered in the
  order they are started; \<open>started\<close> lists them with their keys.
\<close>

datatype 'c reply = Got 'c | Failed

record 'c entry =
  cached :: "'c option"
  fetchedAt :: int
  inFlight :: "nat option"

record 'c config_cache =
  entries :: "string \<Rightarrow> 'c entry"
  ttl :: int
  now :: int
  started :: "(nat \<times> string) list"
  awaiting :: "(nat \<times> nat) list"
  replies :: "(nat \<times> 'c reply) list"

datatype 'c event =
    Get nat string
  | Done nat "'c option"
  | Invalidate string
  | Tick nat

definition get_config :: "nat \<Rightarrow> string \<Rightarrow> 'c config_cache \<Rightarrow> 'c config_cache" where
  "get_config t k c =
     (let e = entries c k in
      case (case cached e of
              Some v \<Rightarrow> if now c - fetchedAt e < ttl c then Some v else None
            | None \<Rightarrow> None) of
        Some v \<Rightarrow> c\<lparr>replies := replies c @ [(t, Got v)]\<rparr>
      | None \<Rightarrow>
          (case inFlight e of
             Some f \<Rightarrow> c\<lparr>awaiting := awaiting c @ [(t, f)]\<rparr>
           | None \<Rightarrow>
               (let f = length (started c) in
                c\<lparr>entries := (entries c)(k := e\<lparr>inFlight := Some f\<rparr>),
                  started := started c @ [(f, k)],
                  awaiting := awaiting c @ [(t, f)]\<rparr>)))"

definition waiters :: "nat \<Rightarrow> 'c config_cache \<Rightarrow> nat list" where
  "waiters f c = map fst (filter (\<lambda>(t, g). g = f) (awaiting c))"

definition fetch_done :: "nat \<Rightarrow> 'c option \<Rightarrow> 'c config_cache \<Rightarrow> 'c config_cache" where
  "fetch_done f res c =
     (case map_of (started c) f of
        None \<Rightarrow> c
      | Some k \<Rightarrow>
          if inFlight (entries c k) \<noteq> Some f then c
          else
            (case res of
               Some v \<Rightarrow>
                 c\<lparr>entries := (entries c)(k := \<lparr>cached = Some v, fetchedAt = now c, inFlight = None\<rparr>),
                   awaiting := filter (\<lambda>(t, g). g \<noteq> f) (awaiting c),
                   replies := replies c @ map (\<lambda>t. (t, Got v)) (waiters f c)\<rparr>
             | None \<Rightarrow>
                 c\<lparr>entries := (entries c)(k := (entries c k)\<lparr>inFlight := None\<rparr>),
                   awaiting := filter (\<lambda>(t, g). g \<noteq> f) (awaiting c),
                   replies := replies c @ map (\<lambda>t. (t, Failed)) (waiters f c)\<rparr>))"

definition invalidate :: "string \<Rightarrow> 'c config_cache \<Rightarrow> 'c config_cache" where
  "invalidate k c = c\<lparr>entries := (entries c)(k := (entries c k)\<lparr>cached := None, fetchedAt := 0\<rparr>)\<rparr>"

fun step :: "'c config_cache \<Rightarrow> 'c event \<Rightarrow> 'c config_cache" where
  "step c (Get t k) = get_config t k c"
| "step c (Done f res) = fetch_done f res c"
| "step c (Invalidate k) = invalidate k c"
| "step c (Tick d) = c\<lparr>now := now c + int d\<rparr>"

text \<open>
  The fetches a cache has started are numbered from 0 in order, and a fetch that is
  awaited or in flight was started. This holds of the empty cache and after every event.
\<close>

definition numbered :: "'c config_cache \<Rightarrow> bool" where
  "numbered c \<longleftrightarrow>
     map fst (started c) = [0..<length (started c)] \<and>
     list_all (\<lambda>(t, g). g < length (started c)) (awaiting c) \<and>
     (\<forall>k f. inFlight (entries c k) = Some f \<longrightarrow> f < length (started c))"

definition empty_cache :: "int \<Rightarrow> 'c config_cache" where
  "empty_cache life =
     \<lparr> entries = (\<lambda>k. \<lparr>cached = None, fetchedAt = 0, inFlight = None\<rparr>),
       ttl = life, now = 0, started = [], awaiting = [], replies = [] \<rparr>"

section \<open>Concrete inputs\<close>

text \<open>
  A runtime for the worked examples. The source text \<open>() => {}\<close> evaluates to the
  function 0, which returns undefined; \<open>async () => {}\<close> to the function 1, which returns
  a promise fulfilled with undefined; \<open>() => later\<close> to the function 2, which returns an
  object whose \<open>then\<close> (the function 3) resolves with undefined; the text \<open>42\<close> evaluates to
  a number; every other text is a syntax error.
\<close>

definition example_thenable :: jsval where
  "example_thenable = JObj [(''then'', JFun 3)]"

definition example_runtime :: "unit runtime" where
  "example_runtime =
     \<lparr> eval_code = (\<lambda>src. if src = ''() => {}'' then Inr (JFun 0)
                           else if src = ''async () => {}'' then Inr (JFun 1)
                           else if src = ''() => later'' then Inr (JFun 2)
                           else if src = ''42'' then Inr (JNum (Fin 42))
                           else Inl (Error ''Unexpected token'')),
       call_fn = (\<lambda>f args. if f = JFun 1 then Inr (JPromise (Fulfilled JUndefined))
                           else if f = JFun 2 then Inr example_thenable
                           else Inr JUndefined),
       then_fate = (\<lambda>v. Fulfilled JUndefined) \<rparr>"

definition example_description :: "jsval \<Rightarrow> string" where
  "example_description d = (case d of JStr s \<Rightarrow> s | _ \<Rightarrow> ''undefined'')"

definition example_params :: "string \<Rightarrow> jsval" where
  "example_params src = JObj [(''code'', JStr src), (''description'', JStr ''demo'')]"

definition example_request :: request where
  "example_request =
     \<lparr> req_data = JObj [], req_message = JNull, req_postback = JNull, req_referral = JNull,
       req_optin = JNull, req_state = JObj [],
       req_intents = Some [\<lparr> intent = ''greeting'', score = Fin (9 / 10), entities = [] \<rparr>,
                           \<lparr> intent = ''bye'', score = Fin (1 / 10), entities = [] \<rparr>] \<rparr>"

text \<open>
  Modelled from the spec: parseActionPayload, quickReplyAction and tokenize are functions
  of src/utils.js, which is not among the sources; the specification only says that a
  payload carries a target action and its data. The instance used in the worked examples
  reads them from the shapes that the factories of Request.js build: an object with an
  action (the expected state), a payload object \<open>{ action, data }\<close> (Request.postBack), or
  a payload that is the action's text (Request.quickReplyText). It matches no keyword
  and tokenizes a text to itself.
\<close>

definition example_parse :: "jsval \<Rightarrow> error + (jsval \<times> jsval)" where
  "example_parse object =
     ebind (getp object ''action'') (\<lambda>a.
       if truthy a then ebind (getp object ''data'') (\<lambda>d. Inr (a, js_or d (JObj [])))
       else
         ebind (getp object ''payload'') (\<lambda>p.
           case p of
             JObj fs \<Rightarrow>
               ebind (getp p ''action'') (\<lambda>a'.
               ebind (getp p ''data'') (\<lambda>d. Inr (a', js_or d p)))
           | JStr s \<Rightarrow> Inr (JStr s, JObj [])
           | _ \<Rightarrow> Inr (JUndefined, JObj [])))"

definition example_utils :: utils where
  "example_utils =
     \<lparr> parseActionPayload = example_parse,
       quickReplyAction = (\<lambda>kw t1 t2. Inr JNull),
       tokenize = (\<lambda>t. Inr t),
       base64_decode = (\<lambda>s. s) \<rparr>"


definition quick_reply_message :: jsval where
  "quick_reply_message =
     JObj [(''text'', JStr ''hello''), (''quick_reply'', JObj [(''payload'', JStr ''/from-quick-reply'')])]"

definition event_referral_postback_quick_reply :: jsval where
  "event_referral_postback_quick_reply =
     JObj [(''sender'', JObj [(''id'', JStr ''user'')]),
           (''postback'',
              JObj [(''payload'', JObj [(''action'', JStr ''/from-postback''), (''data'', JObj [])]),
                    (''referral'', JObj [(''ref'', JStr ''/from-referral'')])]),
           (''message'', quick_reply_message)]"

definition request_referral_postback_quick_reply :: request where
  "request_referral_postback_quick_reply =
     \<lparr> req_data = event_referral_postback_quick_reply,
       req_message = quick_reply_message,
       req_postback =
         JObj [(''payload'', JObj [(''action'', JStr ''/from-postback''), (''data'', JObj [])]),
               (''referral'', JObj [(''ref'', JStr ''/from-referral'')])],
       req_referral = JObj [(''ref'', JStr ''/from-referral'')],
       req_optin = JNull,
       req_state = JObj [],
       req_intents = None \<rparr>"



definition event_target_app :: jsval where
  "event_target_app =
     JObj [(''sender'', JObj [(''id'', JStr ''user'')]), (''target_app_id'', JStr ''other-app'')]"

definition request_target_app :: request where
  "request_target_app =
     \<lparr> req_data = event_target_app,
       req_message = JNull,
       req_postback = JNull,
       req_referral = JNull,
       req_optin = JNull,
       req_state = JObj [],
       req_intents = None \<rparr>"

text \<open>
  An engine for the worked examples. It knows two templates without placeholders, which
  render as their source text, and refuses to compile what is not a string. Its first
  draw is 0 and every later draw is 1/2, that is \<open>2^52 / 2^53\<close>.
\<close>

definition example_engine :: engine where
  "example_engine =
     \<lparr> hbs_compile =
         (\<lambda>t. case t of
                JStr s \<Rightarrow> if s = ''Hello'' then Inr 1 else if s = ''Good day'' then Inr 2 else Inr 0
              | _ \<Rightarrow> Inl (Error ''You must pass a string to Handlebars.compile'')),
       call_template =
         (\<lambda>f state. if f = JFun 1 then Inr (JStr ''Hello'')
                     else if f = JFun 2 then Inr (JStr ''Good day'')
                     else Inr (JStr [])),
       random_draw = (\<lambda>n. if n = 0 then (0, 0) else (4503599627370496, 0)) \<rparr>"

definition two_variants :: jsval where
  "two_variants = JArr [JStr ''Hello'', JStr ''Good day'']"

definition state_en :: jsval where
  "state_en = JObj [(''lang'', JStr ''en'')]"

definition cache_after_first :: "jsval \<rightharpoonup> renderer" where
  "cache_after_first = [JStr ''en'' \<mapsto> Randomized [JFun 1, JStr ''Good day'']]"

definition cache_after_second :: "jsval \<rightharpoonup> renderer" where
  "cache_after_second = [JStr ''en'' \<mapsto> Randomized [JFun 1, JFun 2]]"

text \<open>A postback button to the route \<open>route-7\<close>, and the default linksTranslator.\<close>

definition postback_button :: jsval where
  "postback_button =
     JObj [(''title'', JStr ''Hello''),
           (''action'', JObj [(''type'', JStr ''postback''), (''targetRouteId'', JStr ''route-7'')])]"

definition default_linksTranslator :: "jsval \<Rightarrow> jsval \<Rightarrow> jsval \<Rightarrow> bool \<Rightarrow> error + jsval" where
  "default_linksTranslator sndr defaultText urlText isExtUrl = Inr urlText"

text \<open>
  A host for the worked examples: the translator and makeAbsolute return their argument,
  there are no quick replies. And a world whose only object is a conversation state, at
  address 0.
\<close>

definition example_host :: host where
  "example_host =
     \<lparr> call_translator = (\<lambda>f t. Inr t),
       util_format = (\<lambda>t args. t),
       makeQuickReplies = (\<lambda>replies p t collector. Inr (JArr [], JArr [])),
       makeAbsolute = (\<lambda>a p. Inr a),
       JSON_stringify = (\<lambda>v. Inr (JStr ''{}'')),
       template_text = (\<lambda>v. []),
       typing_time = (\<lambda>a t. JNum (Fin 400)) \<rparr>"

definition example_world :: world where
  "example_world = \<lparr> heap = [0 \<mapsto> [(''visited'', JBool True)]], next_addr = 1, sent = [] \<rparr>"

definition example_ops :: "op list" where
  "example_ops =
     [SetState (Val (JObj [(''visited'', JBool False)])),
      SetState (Ref 0),
      Expected (JStr ''/next'') JUndefined,
      Text (JStr ''Hello'') []]"

definition example_responder :: responder where
  "example_responder =
     \<lparr> senderId = JStr ''user'', token = JNull, newState = 2, path = JStr [],
       routePath = JStr [], options = [(''translator'', JFun 0), (''appUrl'', JStr [])],
       translator = JFun 0, quickReplyCollector = [], data_ref = 1,
       messagingType = JStr ''RESPONSE'', tag = JNull, firstTypingSkipped = False \<rparr>"

definition example_world_new :: world where
  "example_world_new =
     \<lparr> heap = [0 \<mapsto> [(''visited'', JBool True)], 1 \<mapsto> [], 2 \<mapsto> []], next_addr = 3, sent = [] \<rparr>"

definition example_world_after :: world where
  "example_world_after =
     \<lparr> heap = [0 \<mapsto> [(''visited'', JBool True)], 1 \<mapsto> [],
               2 \<mapsto> [(''visited'', JBool True),
                     (''_expected'', JObj [(''action'', JStr ''/next''), (''data'', JObj [])])]],
       next_addr = 3,
       sent = [JObj [(''recipient'', JObj [(''id'', JStr ''user'')]),
                     (''message'', JObj [(''text'', JStr ''Hello'')]),
                     (''messaging_type'', JStr ''RESPONSE'')]] \<rparr>"

text \<open>
  A postback button whose title has a null among its translations, and a state in the
  language \<open>cz\<close>.
\<close>

definition broken_title_button :: jsval where
  "broken_title_button =
     JObj [(''title'', JArr [JObj [(''l'', JStr ''en''), (''t'', JStr ''Hello'')], JNull]),
           (''action'', JObj [(''type'', JStr ''postback''), (''targetRouteId'', JStr ''route-7'')])]"

definition state_cz :: jsval where
  "state_cz = JObj [(''lang'', JStr ''cz'')]"

section \<open>Basic facts\<close>

lemma ebind_Inl [simp]: "ebind (Inl e) f = Inl e"
  by (simp add: ebind_def)

lemma ebind_Inr [simp]: "ebind (Inr v) f = f v"
  by (simp add: ebind_def)

lemma ebind_eq_Inr: "ebind m f = Inr y \<longleftrightarrow> (\<exists>v. m = Inr v \<and> f v = Inr y)"
  by (cases m) simp_all

lemma typeof_undefined: "typeof v = ''undefined'' \<longleftrightarrow> v = JUndefined"
  by (cases v) simp_all

lemma typeof_function: "typeof v = ''function'' \<longleftrightarrow> (\<exists>f. v = JFun f)"
  by (cases v) simp_all

lemma typeof_string: "typeof v = ''string'' \<longleftrightarrow> (\<exists>s. v = JStr s)"
  by (cases v) simp_all

lemma getp_truthy: "truthy v \<Longrightarrow> \<exists>w. getp v k = Inr w"
  by (cases v) simp_all

section \<open>Request.intent reads the top-ranked intent only\<close>

text \<open>
  C8. Request.intent returns null when the request carries no intents (\<open>_intents\<close> null
  or empty). Otherwise it reads the first intent and nothing else: with a numeric
  threshold \<open>s\<close> the result is that intent's label exactly when its score is at least
  \<open>s\<close>, and null when it is not; with the flag true the result is the whole first
  intent; and the result is the same as for the request that holds the first intent
  alone.
\<close>

theorem intent_top_ranked:
  "(req_intents r = None \<or> req_intents r = Some [] \<longrightarrow> intent_of r a = RNull) \<and>
   (req_intents r = Some (i # rest) \<longrightarrow>
      (intent_of r (Score s) = RLabel (intent i) \<longleftrightarrow> num_ge (score i) s) \<and>
      (\<not> num_ge (score i) s \<longrightarrow> intent_of r (Score s) = RNull) \<and>
      intent_of r (Flag True) = RIntent i \<and>
      intent_of r a = intent_of (r\<lparr>req_intents := Some [i]\<rparr>) a)"
  by (cases a) auto

theorem intent_top_ranked_witness:
  "intent_of example_request (Score (Fin (1 / 2))) = RLabel ''greeting'' \<and>
   intent_of example_request (Score (Fin 1)) = RNull \<and>
   intent_of example_request (Flag True)
     = RIntent \<lparr> intent = ''greeting'', score = Fin (9 / 10), entities = [] \<rparr> \<and>
   intent_of (example_request\<lparr>req_intents := None\<rparr>) (Flag True) = RNull"
  using intent_top_ranked
    [of example_request "Score (Fin (1 / 2))"
        "\<lparr> intent = ''greeting'', score = Fin (9 / 10), entities = [] \<rparr>"
        "[\<lparr> intent = ''bye'', score = Fin (1 / 10), entities = [] \<rparr>]" "Fin (1 / 2)"]
  by (simp add: example_request_def)

section \<open>The Code resolver\<close>

lemma await_guard:
  "(if typeof ret = ''object'' \<and> ret \<noteq> JNull then await rt ret else Some (Inr ret))
     = await rt ret"
  by (cases ret) (simp_all add: await_def)

lemma resolver_body_value:
  assumes "call_fn rt fn args = Inr ret" and "await rt ret = Some (Inr v)"
  shows "resolver_body rt fn isLastIndex args
           = Some (Inr (if v = JUndefined then (if truthy isLastIndex then JNull else JBool True)
                        else v))"
  using assms by (simp add: resolver_body_def await_guard typeof_undefined)

lemma await_plain:
  assumes "\<forall>p. ret \<noteq> JPromise p" and "\<not> is_thenable ret"
  shows "await rt ret = Some (Inr ret)"
  using assms by (cases ret) (simp_all add: await_def)

lemma await_promise: "await rt (JPromise (Fulfilled v)) = Some (Inr v)"
  by (simp add: await_def)

lemma await_thenable:
  assumes "is_thenable ret" and "then_fate rt ret = Fulfilled v"
  shows "await rt ret = Some (Inr v)"
  using assms by (cases ret) (simp_all add: await_def)

text \<open>
  C3. Let inlineCode build a resolver from a callable \<open>fn\<close> for a route position with
  the flag \<open>isLastIndex\<close>, and let a call of \<open>fn\<close> return \<open>ret\<close>. When \<open>ret\<close> is undefined,
  or a promise fulfilled with undefined, or a thenable that resolves with undefined, the
  resolver's outcome is null (STOP) if \<open>isLastIndex\<close> is true and true (CONTINUE)
  otherwise. When \<open>ret\<close> is a defined value that is neither a promise nor a thenable, the
  outcome is \<open>ret\<close> itself; when \<open>ret\<close> is a promise or a thenable fulfilled with a
  defined value, the outcome is that value, which is what the promise of an async
  function that returns \<open>ret\<close> settles with.
\<close>

theorem inlineCode_default_outcome:
  assumes "inlineCode rt dt params ctx = Inr resolver"
    and "getp ctx ''isLastIndex'' = Inr isLastIndex"
    and "getp params ''code'' = Inr code"
    and "getp params ''description'' = Inr d"
    and "customFn rt code (dt d) = Inr fn"
    and "call_fn rt fn args = Inr ret"
  shows "(ret = JUndefined \<or> ret = JPromise (Fulfilled JUndefined) \<or>
          (is_thenable ret \<and> then_fate rt ret = Fulfilled JUndefined)
            \<longrightarrow> resolver args = Some (Inr (if truthy isLastIndex then JNull else JBool True))) \<and>
         (ret \<noteq> JUndefined \<and> (\<forall>p. ret \<noteq> JPromise p) \<and> \<not> is_thenable ret
            \<longrightarrow> resolver args = Some (Inr ret)) \<and>
         (\<forall>v. v \<noteq> JUndefined \<and>
              (ret = JPromise (Fulfilled v) \<or> (is_thenable ret \<and> then_fate rt ret = Fulfilled v))
            \<longrightarrow> resolver args = Some (Inr v))"
proof -
  from assms(1-5) have r: "resolver = resolver_body rt fn isLastIndex"
    by (simp add: inlineCode_def)
  have val: "resolver args
               = Some (Inr (if v = JUndefined then (if truthy isLastIndex then JNull else JBool True)
                            else v))"
    if "await rt ret = Some (Inr v)" for v
    using that assms(6) by (simp add: r resolver_body_value)
  have 1: "resolver args = Some (Inr (if truthy isLastIndex then JNull else JBool True))"
    if "ret = JUndefined \<or> ret = JPromise (Fulfilled JUndefined) \<or>
        (is_thenable ret \<and> then_fate rt ret = Fulfilled JUndefined)"
  proof -
    from that have "await rt ret = Some (Inr JUndefined)"
      by (auto simp add: await_promise await_thenable await_plain)
    from val [OF this] show ?thesis by simp
  qed
  have 2: "resolver args = Some (Inr ret)"
    if "ret \<noteq> JUndefined \<and> (\<forall>p. ret \<noteq> JPromise p) \<and> \<not> is_thenable ret"
  proof -
    from that have "await rt ret = Some (Inr ret)"
      by (simp add: await_plain)
    from val [OF this] that show ?thesis by simp
  qed
  have 3: "resolver args = Some (Inr v)"
    if "v \<noteq> JUndefined \<and>
        (ret = JPromise (Fulfilled v) \<or> (is_thenable ret \<and> then_fate rt ret = Fulfilled v))" for v
  proof -
    from that have "await rt ret = Some (Inr v)"
      by (auto simp add: await_promise await_thenable)
    from val [OF this] that show ?thesis by simp
  qed
  from 1 2 3 show ?thesis by blast
qed

theorem inlineCode_default_outcome_witness:
  "(\<exists>resolver.
      inlineCode example_runtime example_description (example_params ''() => {}'')
        (JObj [(''isLastIndex'', JBool True)]) = Inr resolver \<and>
      resolver () = Some (Inr JNull)) \<and>
   (\<exists>resolver.
      inlineCode example_runtime example_description (example_params ''async () => {}'')
        (JObj [(''isLastIndex'', JBool True)]) = Inr resolver \<and>
      resolver () = Some (Inr JNull)) \<and>
   (\<exists>resolver.
      inlineCode example_runtime example_description (example_params ''async () => {}'')
        (JObj [(''isLastIndex'', JBool False)]) = Inr resolver \<and>
      resolver () = Some (Inr (JBool True))) \<and>
   (\<exists>resolver.
      inlineCode example_runtime example_description (example_params ''() => later'')
        (JObj [(''isLastIndex'', JBool False)]) = Inr resolver \<and>
      resolver () = Some (Inr (JBool True)))"
proof -
  have c: "\<And>s. getp (example_params s) ''code'' = Inr (JStr s)"
    and d: "\<And>s. getp (example_params s) ''description'' = Inr (JStr ''demo'')"
    by (simp_all add: example_params_def)
  have l: "\<And>l. getp (JObj [(''isLastIndex'', l)]) ''isLastIndex'' = Inr l"
    by simp
  have f0: "customFn example_runtime (JStr ''() => {}'') (example_description (JStr ''demo''))
              = Inr (JFun 0)"
    and f1: "customFn example_runtime (JStr ''async () => {}'') (example_description (JStr ''demo''))
              = Inr (JFun 1)"
    and f2: "customFn example_runtime (JStr ''() => later'') (example_description (JStr ''demo''))
              = Inr (JFun 2)"
    by (simp_all add: customFn_def example_runtime_def)
  have r0: "call_fn example_runtime (JFun 0) () = Inr JUndefined"
    and r1: "call_fn example_runtime (JFun 1) () = Inr (JPromise (Fulfilled JUndefined))"
    and r2: "call_fn example_runtime (JFun 2) () = Inr example_thenable"
    by (simp_all add: example_runtime_def)
  have t: "is_thenable example_thenable"
    and tf: "then_fate example_runtime example_thenable = Fulfilled JUndefined"
    by (simp_all add: example_thenable_def example_runtime_def)
  have b0: "\<And>l. inlineCode example_runtime example_description (example_params ''() => {}'')
               (JObj [(''isLastIndex'', l)]) = Inr (resolver_body example_runtime (JFun 0) l)"
    and b1: "\<And>l. inlineCode example_runtime example_description (example_params ''async () => {}'')
               (JObj [(''isLastIndex'', l)]) = Inr (resolver_body example_runtime (JFun 1) l)"
    and b2: "\<And>l. inlineCode example_runtime example_description (example_params ''() => later'')
               (JObj [(''isLastIndex'', l)]) = Inr (resolver_body example_runtime (JFun 2) l)"
    by (simp_all add: inlineCode_def c d f0 f1 f2)
  from inlineCode_default_outcome [OF b0 l c d f0 r0, of "JBool True"]
  have w0: "resolver_body example_runtime (JFun 0) (JBool True) () = Some (Inr JNull)"
    by simp
  from inlineCode_default_outcome [OF b1 l c d f1 r1, of "JBool True"]
  have w1: "resolver_body example_runtime (JFun 1) (JBool True) () = Some (Inr JNull)"
    by simp
  from inlineCode_default_outcome [OF b1 l c d f1 r1, of "JBool False"]
  have w2: "resolver_body example_runtime (JFun 1) (JBool False) () = Some (Inr (JBool True))"
    by simp
  from inlineCode_default_outcome [OF b2 l c d f2 r2, of "JBool False"] t tf
  have w3: "resolver_body example_runtime (JFun 2) (JBool False) () = Some (Inr (JBool True))"
    by simp
  from b0 b1 b2 w0 w1 w2 w3 show ?thesis
    by simp
qed

text \<open>
  C6. Building a Code resolver from readable parameters gives exactly what customFn
  gives: an error of customFn is the error of inlineCode, not a resolver. And customFn
  throws in each of the three cases: the code is not a string, evaluating the code
  throws, or the value it evaluates to is not a function.
\<close>

theorem inlineCode_construction_fails:
  assumes "getp ctx ''isLastIndex'' = Inr isLastIndex"
    and "getp params ''code'' = Inr code"
    and "getp params ''description'' = Inr d"
  shows "(\<forall>e. customFn rt code (dt d) = Inl e \<longrightarrow> inlineCode rt dt params ctx = Inl e) \<and>
         (typeof code \<noteq> ''string'' \<longrightarrow> (\<exists>m. inlineCode rt dt params ctx = Inl (Error m))) \<and>
         (\<forall>src e. code = JStr src \<and> eval_code rt src = Inl e
            \<longrightarrow> (\<exists>m. inlineCode rt dt params ctx = Inl (Error m))) \<and>
         (\<forall>src v. code = JStr src \<and> eval_code rt src = Inr v \<and> typeof v \<noteq> ''function''
            \<longrightarrow> (\<exists>m. inlineCode rt dt params ctx = Inl (Error m))) \<and>
         (\<forall>src f. code = JStr src \<and> eval_code rt src = Inr (JFun f)
            \<longrightarrow> inlineCode rt dt params ctx = Inr (resolver_body rt (JFun f) isLastIndex))"
proof -
  have eq: "inlineCode rt dt params ctx
              = ebind (customFn rt code (dt d)) (\<lambda>fn. Inr (resolver_body rt fn isLastIndex))"
    using assms by (simp add: inlineCode_def)
  have 1: "\<forall>e. customFn rt code (dt d) = Inl e \<longrightarrow> inlineCode rt dt params ctx = Inl e"
    by (simp add: eq)
  have 2: "typeof code \<noteq> ''string'' \<longrightarrow> (\<exists>m. inlineCode rt dt params ctx = Inl (Error m))"
    by (cases code) (simp_all add: eq customFn_def typeof_string)
  have 3: "\<forall>src e. code = JStr src \<and> eval_code rt src = Inl e
             \<longrightarrow> (\<exists>m. inlineCode rt dt params ctx = Inl (Error m))"
    by (simp add: eq customFn_def)
  have 4: "\<forall>src v. code = JStr src \<and> eval_code rt src = Inr v \<and> typeof v \<noteq> ''function''
             \<longrightarrow> (\<exists>m. inlineCode rt dt params ctx = Inl (Error m))"
    by (simp add: eq customFn_def)
  have 5: "\<forall>src f. code = JStr src \<and> eval_code rt src = Inr (JFun f)
             \<longrightarrow> inlineCode rt dt params ctx = Inr (resolver_body rt (JFun f) isLastIndex)"
    by (simp add: eq customFn_def)
  from 1 2 3 4 5 show ?thesis by blast
qed

theorem inlineCode_construction_fails_witness:
  "inlineCode example_runtime example_description
     (JObj [(''code'', JNum (Fin 1)), (''description'', JStr ''demo'')])
     (JObj [(''isLastIndex'', JBool True)])
     = Inl (Error (''Inline code '' @ [CHR 0x27] @ ''demo'' @ [CHR 0x27] @ '' has empty code'')) \<and>
   inlineCode example_runtime example_description (example_params ''('')
     (JObj [(''isLastIndex'', JBool True)])
     = Inl (Error (''Invalid inline code '' @ [CHR 0x27] @ ''demo'' @ [CHR 0x27]
                    @ '': Unexpected token'')) \<and>
   inlineCode example_runtime example_description (example_params ''42'')
     (JObj [(''isLastIndex'', JBool True)])
     = Inl (Error (''Invalid inline code '' @ [CHR 0x27] @ ''demo'' @ [CHR 0x27]
                    @ '': must be a function''))"
proof -
  let ?ctx = "JObj [(''isLastIndex'', JBool True)]"
  have l: "getp ?ctx ''isLastIndex'' = Inr (JBool True)" by simp
  let ?p1 = "JObj [(''code'', JNum (Fin 1)), (''description'', JStr ''demo'')]"
  have c1: "getp ?p1 ''code'' = Inr (JNum (Fin 1))"
    and d1: "getp ?p1 ''description'' = Inr (JStr ''demo'')" by simp_all
  have c2: "\<And>s. getp (example_params s) ''code'' = Inr (JStr s)"
    and d2: "\<And>s. getp (example_params s) ''description'' = Inr (JStr ''demo'')"
    by (simp_all add: example_params_def)
  have e1: "customFn example_runtime (JNum (Fin 1)) (example_description (JStr ''demo''))
              = Inl (Error (''Inline code '' @ [CHR 0x27] @ ''demo'' @ [CHR 0x27]
                             @ '' has empty code''))"
    by (simp add: customFn_def example_description_def)
  have e2: "customFn example_runtime (JStr ''('') (example_description (JStr ''demo''))
              = Inl (Error (''Invalid inline code '' @ [CHR 0x27] @ ''demo'' @ [CHR 0x27]
                             @ '': Unexpected token''))"
    by (simp add: customFn_def example_description_def example_runtime_def)
  have e3: "customFn example_runtime (JStr ''42'') (example_description (JStr ''demo''))
              = Inl (Error (''Invalid inline code '' @ [CHR 0x27] @ ''demo'' @ [CHR 0x27]
                             @ '': must be a function''))"
    by (simp add: customFn_def example_description_def example_runtime_def)
  note t1 = inlineCode_construction_fails
    [OF l c1 d1, where rt = example_runtime and dt = example_description,
      THEN conjunct1, rule_format, OF e1]
  note t2 = inlineCode_construction_fails
    [OF l c2 d2, where rt = example_runtime and dt = example_description,
      THEN conjunct1, rule_format, OF e2]
  note t3 = inlineCode_construction_fails
    [OF l c2 d2, where rt = example_runtime and dt = example_description,
      THEN conjunct1, rule_format, OF e3]
  show ?thesis
    by (intro conjI t1 t2 t3)
qed


section \<open>Request.action: the priority order\<close>

lemma run_steps_truthy:
  assumes "\<forall>s \<in> set ss. \<forall>res. truthy res \<longrightarrow> s res = Inr res" and "truthy res"
  shows "run_steps res ss = Inr res"
  using assms by (induction ss) simp_all

lemma agree_Inl: "agree (Inl e) b \<longleftrightarrow> b = Inl e"
  by (cases b) auto

lemma agree_Inr:
  "agree (Inr v) b \<longleftrightarrow> (\<exists>w. b = Inr w \<and> (if truthy v then v = w else \<not> truthy w))"
  by (cases b) auto

lemma run_steps_first_yield:
  assumes skip: "\<forall>s \<in> set ss. \<forall>res. truthy res \<longrightarrow> s res = Inr res"
    and same: "\<forall>s \<in> set ss. \<forall>res. \<not> truthy res \<longrightarrow> agree (s res) (s JNull)"
    and "\<not> truthy res"
  shows "ebind (run_steps res ss) (\<lambda>v. Inr (if truthy v then v else d))
           = ebind (first_yield (map (\<lambda>s. s JNull) ss))
               (\<lambda>found. Inr (case found of Some v \<Rightarrow> v | None \<Rightarrow> d))"
  using assms
proof (induction ss arbitrary: res)
  case Nil
  then show ?case by simp
next
  case (Cons s ss)
  have ag: "agree (s res) (s JNull)"
    using Cons.prems by simp
  have skip': "\<forall>s \<in> set ss. \<forall>res. truthy res \<longrightarrow> s res = Inr res"
    and same': "\<forall>s \<in> set ss. \<forall>res. \<not> truthy res \<longrightarrow> agree (s res) (s JNull)"
    using Cons.prems by simp_all
  show ?case
  proof (cases "s res")
    case (Inl e)
    with ag have "s JNull = Inl e" by (simp add: agree_Inl)
    with Inl show ?thesis by simp
  next
    case (Inr v)
    with ag obtain w where w: "s JNull = Inr w" and vw: "if truthy v then v = w else \<not> truthy w"
      by (auto simp add: agree_Inr)
    show ?thesis
    proof (cases "truthy v")
      case True
      with vw have "w = v" by simp
      with True Inr w show ?thesis
        using run_steps_truthy [OF skip', of v] by simp
    next
      case False
      with vw have "\<not> truthy w" by simp
      with False Inr w show ?thesis
        using Cons.IH [OF skip' same', of v] by simp
    qed
  qed
qed

lemma agree_refl: "agree a a"
  by (cases a) simp_all

lemma act_postback_skip: "truthy res \<Longrightarrow> act_postback U r g res = Inr res"
  by (simp add: act_postback_def)

lemma act_postback_agree: "\<not> truthy res \<Longrightarrow> agree (act_postback U r g res) (act_postback U r g JNull)"
  by (simp add: act_postback_def agree_refl)

lemma act_optin_skip: "truthy res \<Longrightarrow> act_optin U r g res = Inr res"
  by (simp add: act_optin_def)

lemma act_optin_agree: "\<not> truthy res \<Longrightarrow> agree (act_optin U r g res) (act_optin U r g JNull)"
  by (cases "getp (req_optin r) ''ref''") (simp_all add: act_optin_def agree_refl)

lemma act_quick_reply_skip: "truthy res \<Longrightarrow> act_quick_reply U r g res = Inr res"
  by (simp add: act_quick_reply_def)

lemma act_quick_reply_agree:
  "\<not> truthy res \<Longrightarrow> agree (act_quick_reply U r g res) (act_quick_reply U r g JNull)"
  by (cases "getp (req_message r) ''quick_reply''") (simp_all add: act_quick_reply_def agree_refl)

lemma act_pass_thread_skip: "truthy res \<Longrightarrow> act_pass_thread U r g res = Inr res"
  by (simp add: act_pass_thread_def)

lemma act_pass_thread_agree:
  "\<not> truthy res \<Longrightarrow> agree (act_pass_thread U r g res) (act_pass_thread U r g JNull)"
  apply (simp add: act_pass_thread_def)
  apply (cases "isPassThread r"; simp)
  apply (cases "getp (req_data r) ''pass_thread_control''"; simp)
  subgoal for pt ptc
    apply (cases "getp ptc ''metadata''"; simp add: agree_refl)
    done
  done

lemma act_keywords_skip: "truthy res \<Longrightarrow> act_keywords U r g res = Inr res"
  by (simp add: act_keywords_def)

lemma act_keywords_agree:
  "\<not> truthy res \<Longrightarrow> agree (act_keywords U r g res) (act_keywords U r g JNull)"
  by (cases "getp (req_state r) ''_expectedKeywords''") (simp_all add: act_keywords_def agree_refl)

lemma act_expected_skip: "truthy res \<Longrightarrow> act_expected U r g res = Inr res"
  by (simp add: act_expected_def)

lemma act_expected_agree:
  "\<not> truthy res \<Longrightarrow> agree (act_expected U r g res) (act_expected U r g JNull)"
  by (cases "getp (req_state r) ''_expected''") (simp_all add: act_expected_def agree_refl)

lemma ebind_assoc: "ebind (ebind m f) k = ebind m (\<lambda>x. ebind (f x) k)"
  by (cases m) simp_all

lemma action_run_steps:
  "action U r g =
     ebind (act_referral U r g JNull) (\<lambda>res.
     ebind (run_steps res (later_steps U r g))
       (\<lambda>v. Inr (if truthy v then v else if g then JObj [] else JNull)))"
  by (simp add: action_def later_steps_def ebind_assoc js_or_def cong: if_cong)

lemma later_steps_skip:
  "\<forall>s \<in> set (later_steps U r g). \<forall>res. truthy res \<longrightarrow> s res = Inr res"
  by (simp add: later_steps_def act_postback_skip act_optin_skip act_quick_reply_skip
      act_pass_thread_skip act_keywords_skip act_expected_skip)

lemma later_steps_agree:
  "\<forall>s \<in> set (later_steps U r g). \<forall>res. \<not> truthy res \<longrightarrow> agree (s res) (s JNull)"
  by (simp add: later_steps_def act_postback_agree act_optin_agree act_quick_reply_agree
      act_pass_thread_agree act_keywords_agree act_expected_agree)

lemma sources_later_steps:
  "sources U r g = act_referral U r g JNull # map (\<lambda>s. s JNull) (later_steps U r g)"
  by (simp add: sources_def later_steps_def)

lemma action_eq_spec_action: "action U r g = spec_action U r g"
proof (cases "act_referral U r g JNull")
  case (Inl e)
  then show ?thesis
    by (simp add: action_run_steps spec_action_def sources_later_steps)
next
  case (Inr v)
  show ?thesis
  proof (cases "truthy v")
    case True
    then show ?thesis
      using Inr run_steps_truthy [OF later_steps_skip, of v U r g]
      by (simp add: action_run_steps spec_action_def sources_later_steps)
  next
    case False
    then show ?thesis
      using Inr run_steps_first_yield [OF later_steps_skip later_steps_agree, of v U r g]
      by (simp add: action_run_steps spec_action_def sources_later_steps)
  qed
qed


lemma first_yield_Some: "first_yield xs = Inr (Some v) \<Longrightarrow> truthy v"
  by (induction xs rule: first_yield.induct) (simp_all split: if_splits)

lemma action_never_undefined:
  assumes "action U r g = Inr v"
  shows "v \<noteq> JUndefined \<and> (g \<longrightarrow> truthy v) \<and> (\<not> g \<longrightarrow> truthy v \<or> v = JNull)"
proof -
  from assms obtain found where f: "first_yield (sources U r g) = Inr found"
    and v: "v = (case found of Some v \<Rightarrow> v | None \<Rightarrow> if g then JObj [] else JNull)"
    by (auto simp add: action_eq_spec_action spec_action_def ebind_eq_Inr)
  show ?thesis
  proof (cases found)
    case None
    with v show ?thesis by simp
  next
    case (Some w)
    with f have "truthy w" by (simp add: first_yield_Some)
    with v Some show ?thesis by auto
  qed
qed

lemma pass_thread_fallback:
  assumes "\<not> truthy res" and "isPassThread r = Inr pt" and "truthy pt"
    and "getp (req_data r) ''pass_thread_control'' = Inr ptc"
    and "getp ptc ''metadata'' = Inr metadata" and "\<not> truthy metadata"
  shows "act_pass_thread U r False res = Inr (JStr ''pass-thread'')"
  using assms by (simp add: act_pass_thread_def)



text \<open>
  The first place of the order: on an event whose postback carries a referral, the
  action of the referral is returned.
\<close>

lemma referral_ranks_first:
  "Request_new event_referral_postback_quick_reply (JObj [])
     = Inr request_referral_postback_quick_reply \<and>
   processPayload example_utils (req_postback request_referral_postback_quick_reply) False
     = Inr (JStr ''/from-postback'') \<and>
   getp (req_message request_referral_postback_quick_reply) ''quick_reply''
     = Inr (JObj [(''payload'', JStr ''/from-quick-reply'')]) \<and>
   action example_utils request_referral_postback_quick_reply False
     = Inr (JStr ''/from-referral'')"
  by (simp add: Request_new_def event_referral_postback_quick_reply_def
      request_referral_postback_quick_reply_def js_or_def Let_def
      processPayload_def example_utils_def example_parse_def quick_reply_message_def
      action_def act_referral_def act_postback_def act_optin_def act_quick_reply_def
      act_pass_thread_def act_keywords_def act_expected_def isPassThread_def)

text \<open>
  C7. An event that names a target application passes thread control (isPassThread is
  truthy) and carries no pass-thread metadata. The claim has action fall back to the
  literal \<open>pass-thread\<close>; the code reads \<open>metadata\<close> of the missing
  \<open>pass_thread_control\<close> and throws a TypeError, whatever the helpers are.
\<close>

theorem action_target_app_throws:
  "Request_new event_target_app (JObj []) = Inr request_target_app \<and>
   isPassThread request_target_app = Inr (JStr ''other-app'') \<and>
   action U request_target_app False
     = Inl (TypeError ''Cannot read properties of undefined (reading metadata)'')"
  by (simp add: Request_new_def event_target_app_def
      request_target_app_def js_or_def Let_def
      action_def act_referral_def act_postback_def act_optin_def act_quick_reply_def
      act_pass_thread_def act_keywords_def act_expected_def isPassThread_def)

text \<open>
  C9. The claim has action return an object whenever data is asked for. On the event that
  names a target application, with no \<open>pass_thread_control\<close>, the call with
  \<open>getData = true\<close> returns nothing: it throws the TypeError of the pass-thread
  statement.
\<close>

theorem action_data_target_app_throws:
  "action U request_target_app True
     = Inl (TypeError ''Cannot read properties of undefined (reading metadata)'')"
  by (simp add: request_target_app_def event_target_app_def
      action_def act_referral_def act_postback_def act_optin_def act_quick_reply_def
      act_pass_thread_def act_keywords_def act_expected_def isPassThread_def)

section \<open>The cached renderer of a translated text\<close>

lemma round_to_double_less:
  assumes k: "k < 2 ^ 53" and n: "0 < n"
  shows "round_to_double (k * n) < n * 2 ^ 53"
proof (cases "k * n < 2 ^ 53")
  case True
  have "(2::nat) ^ 53 \<le> n * 2 ^ 53"
    using n by simp
  with True have "k * n < n * 2 ^ 53"
    by (rule less_le_trans)
  with True show ?thesis
    by (simp only: round_to_double_def if_True)
next
  case False
  define p where "p = k * n"
  define s where "s = floorlog 2 p - 53"
  define q where "q = p div 2 ^ s"
  define r where "r = p mod 2 ^ s"
  from False have big: "2 ^ 53 \<le> p"
    by (simp add: p_def)
  then have pos: "0 < p"
    using less_le_trans [of 0 "2 ^ 53" p] by simp
  from floorlog_bounds [OF pos, of 2]
  have lo: "2 ^ (floorlog 2 p - 1) \<le> p" and hi: "p < 2 ^ floorlog 2 p"
    by simp_all
  from big hi have "(2::nat) ^ 53 < 2 ^ floorlog 2 p"
    by (rule le_less_trans)
  moreover have "(1::nat) < 2"
    by simp
  ultimately have fl: "53 < floorlog 2 p"
    using power_less_imp_less_exp [of 2 53 "floorlog 2 p"] by blast
  from fl have s1: "0 < s" and fs: "floorlog 2 p - 1 = 52 + s"
    by (simp_all add: s_def)
  from lo fs have lo': "2 ^ 52 * 2 ^ s \<le> p"
    by (simp add: power_add)
  have pk: "p + n \<le> n * 2 ^ 53"
  proof -
    from k have "k + 1 \<le> 2 ^ 53" by simp
    then have "(k + 1) * n \<le> 2 ^ 53 * n" by (rule mult_le_mono1)
    then show ?thesis by (simp add: p_def algebra_simps)
  qed
  have small: "2 ^ s < 2 * n"
  proof -
    from k n have "p < 2 ^ 53 * n"
      by (simp add: p_def)
    with lo' have "2 ^ 52 * 2 ^ s < 2 ^ 53 * n"
      by (rule le_less_trans)
    then have "2 ^ 52 * 2 ^ s < 2 ^ 52 * (2 * n)"
      by simp
    then show ?thesis
      by (simp only: mult_less_cancel1)
  qed
  have pq: "p = q * 2 ^ s + r"
    unfolding q_def r_def by (rule div_mult_mod_eq [symmetric])
  have res: "round_to_double (k * n) = (if 2 ^ s < 2 * r \<or> (2 * r = 2 ^ s \<and> odd q) then q + 1 else q) * 2 ^ s"
    using False by (simp add: round_to_double_def Let_def p_def [symmetric] s_def [symmetric]
        q_def [symmetric] r_def [symmetric])
  show ?thesis
  proof (cases "2 ^ s < 2 * r \<or> (2 * r = 2 ^ s \<and> odd q)")
    case True
    then have "2 ^ s \<le> 2 * r" by auto
    then have "2 * ((q + 1) * 2 ^ s) \<le> 2 * p + 2 ^ s"
      by (simp add: pq algebra_simps)
    also have "\<dots> < 2 * p + 2 * n"
      using small by simp
    also have "\<dots> \<le> 2 * (n * 2 ^ 53)"
      using pk by simp
    finally have "(q + 1) * 2 ^ s < n * 2 ^ 53"
      by simp
    moreover from True have "round_to_double (k * n) = (q + 1) * 2 ^ s"
      unfolding res by (simp only: if_True)
    ultimately show ?thesis
      by (simp only:)
  next
    case no: False
    have "q * 2 ^ s \<le> p"
      by (simp add: pq)
    also have "p < n * 2 ^ 53"
      using pk n by simp
    finally have "q * 2 ^ s < n * 2 ^ 53" .
    moreover from no have "round_to_double (k * n) = q * 2 ^ s"
      unfolding res by (simp only: if_False)
    ultimately show ?thesis
      by (simp only:)
  qed
qed

lemma floorlog_eq:
  assumes "2 ^ w \<le> p" and "p < 2 ^ Suc w"
  shows "floorlog 2 p = Suc w"
proof -
  have "floorlog 2 p \<le> Suc w"
    using assms(2) by (intro floorlog_leI) simp_all
  moreover have "Suc w \<le> floorlog 2 p"
    using assms(1) by (intro floorlog_ge_SucI) simp_all
  ultimately show ?thesis by simp
qed

lemma round_to_double_exact:
  assumes "2 ^ 52 \<le> q" and "q < 2 ^ 53"
  shows "round_to_double (q * 2 ^ s) = q * 2 ^ s"
proof (cases "s = 0")
  case True
  with assms show ?thesis by (simp add: round_to_double_def)
next
  case False
  have "2 ^ (52 + s) \<le> q * 2 ^ s"
    using assms(1) by (simp add: power_add)
  moreover have "q * 2 ^ s < 2 ^ Suc (52 + s)"
    using assms(2) by (simp add: power_add)
  ultimately have fl: "floorlog 2 (q * 2 ^ s) = Suc (52 + s)"
    by (rule floorlog_eq)
  have big: "\<not> q * 2 ^ s < 2 ^ 53"
  proof -
    from False have "(2::nat) ^ 1 \<le> 2 ^ s"
      by (intro power_increasing) simp_all
    then have "2 ^ 52 * (2::nat) ^ 1 \<le> q * 2 ^ s"
      using assms(1) by (intro mult_le_mono)
    then show ?thesis by simp
  qed
  show ?thesis
    using big by (simp add: round_to_double_def fl Let_def)
qed

lemma round_to_double_half: "round_to_double (4503599627370496 * 2) div 2 ^ 53 = 1"
  using round_to_double_exact [of 4503599627370496 1] by simp

lemma round_to_double_tie: "round_to_double (5146971002709138 * 7) div 2 ^ 53 = 4"
proof -
  have fl: "floorlog 2 36028797018963966 = Suc 54"
    by (rule floorlog_eq) simp_all
  show ?thesis
    by (simp add: round_to_double_def fl Let_def)
qed

lemma variant_index_less:
  assumes "0 < len"
  shows "variant_index E n len < len"
proof -
  obtain m j where d: "random_draw E n = (m, j)"
    by (cases "random_draw E n") auto
  have "m mod 2 ^ 53 < (2::nat) ^ 53"
    by simp
  from round_to_double_less [OF this assms]
  have "round_to_double ((m mod 2 ^ 53) * len) < len * 2 ^ 53" .
  also have "len * (2::nat) ^ 53 \<le> len * 2 ^ (53 + j)"
    by (intro mult_le_mono2 power_increasing) simp_all
  finally have "round_to_double ((m mod 2 ^ 53) * len) div 2 ^ (53 + j) < len"
    by (simp add: less_mult_imp_div_less)
  with d show ?thesis
    by (simp add: variant_index_def)
qed

text \<open>
  The draws of the worked examples, and a draw on which the rounding of the product
  decides: 0.5714285714285714 is \<open>5146971002709138 / 2^53\<close>, just below 4/7, and its
  product with 7 rounds to 4.
\<close>

lemma example_index_first: "variant_index example_engine 0 (Suc (Suc 0)) = 0"
  by (simp add: variant_index_def example_engine_def round_to_double_def)

lemma example_index_later: "0 < n \<Longrightarrow> variant_index example_engine n (Suc (Suc 0)) = 1"
  using round_to_double_half by (simp add: variant_index_def example_engine_def)

lemma example_compile:
  "hbs_compile example_engine (JStr ''Hello'') = Inr 1"
  "hbs_compile example_engine (JStr ''Good day'') = Inr 2"
  by (simp_all add: example_engine_def)

lemma example_call:
  "call_template example_engine (JFun 1) st = Inr (JStr ''Hello'')"
  "call_template example_engine (JFun (Suc 0)) st = Inr (JStr ''Hello'')"
  "call_template example_engine (JFun 2) st = Inr (JStr ''Good day'')"
  by (simp_all add: example_engine_def)

lemma variant_index_rounds:
  "random_draw E n = (5146971002709138, 0) \<Longrightarrow> variant_index E n 7 = 4"
  using round_to_double_tie by (simp add: variant_index_def)

lemma getLanguageText_array:
  assumes "getLanguageText txt lang = Inr (JArr ts)"
  shows "ts \<noteq> []"
proof -
  from assms obtain foundText where
    "(case foundText of
        JArr fs \<Rightarrow> if filter truthy fs = [] then Inr (JStr []) else Inr (JArr (filter truthy fs))
      | _ \<Rightarrow> Inr (js_or foundText (JStr []))) = (Inr (JArr ts) :: error + jsval)"
    unfolding getLanguageText_def Let_def ebind_eq_Inr by blast
  then show ?thesis
    by (cases foundText) (auto simp add: js_or_def split: if_splits)
qed

lemma randomizedCompiler_Randomized:
  assumes "randomizedCompiler E txt lang = Inr (Randomized ts)"
  shows "ts \<noteq> []"
proof -
  from assms obtain texts where g: "getLanguageText txt lang = Inr texts"
    and c: "(case texts of
               JArr [t] \<Rightarrow> ebind (hbs_compile E t) (\<lambda>f. Inr (Template f))
             | JArr ts \<Rightarrow> Inr (Randomized ts)
             | _ \<Rightarrow> ebind (hbs_compile E texts) (\<lambda>f. Inr (Template f))) = Inr (Randomized ts)"
    unfolding randomizedCompiler_def ebind_eq_Inr by blast
  from c have "texts = JArr ts"
    by (cases texts) (auto simp add: ebind_eq_Inr split: list.splits)
  with g show ?thesis
    by (simp add: getLanguageText_array)
qed

lemma follows_refl:
  assumes "randomizedCompiler E txt lang = Inr r0"
  shows "follows E r0 r0"
proof (cases r0)
  case (Template f)
  then show ?thesis by simp
next
  case (Randomized ts)
  with assms have "ts \<noteq> []"
    by (simp add: randomizedCompiler_Randomized)
  with Randomized show ?thesis
    by (simp add: list_all2_same)
qed

lemma call_renderer_follows:
  assumes f: "follows E r0 r" and c: "call_renderer E r state n = (res, r', n')"
  shows "follows E r0 r' \<and> outcome E r0 state n res n'"
proof (cases r0)
  case (Template f0)
  with f obtain "r = Template f0"
    by (cases r) simp_all
  with c Template show ?thesis
    by (auto simp add: outcome_def)
next
  case (Randomized ts0)
  with f obtain ts where r: "r = Randomized ts"
    by (cases r) simp_all
  from f Randomized r have ne: "ts0 \<noteq> []"
    and all: "list_all2
        (\<lambda>t0 t. t = t0 \<or>
           (typeof t0 \<noteq> ''function'' \<and> (\<exists>f. hbs_compile E t0 = Inr f \<and> t = JFun f)))
        ts0 ts"
    by simp_all
  from all have len: "length ts = length ts0"
    by (simp add: list_all2_lengthD)
  define i where "i = variant_index E n (length ts)"
  have i: "i < length ts0"
    using ne len variant_index_less [of "length ts" E n] by (simp add: i_def)
  from all i have rel: "ts ! i = ts0 ! i \<or>
      (typeof (ts0 ! i) \<noteq> ''function'' \<and> (\<exists>f. hbs_compile E (ts0 ! i) = Inr f \<and> ts ! i = JFun f))"
    by (simp add: list_all2_conv_all_nth)
  have get: "array_get ts i = ts ! i"
    using i len by (simp add: array_get_def)
  have out: "outcome E r0 state n res n' \<longleftrightarrow>
               res = render_variant E (ts0 ! i) state \<and> n' = Suc n"
    using i by (simp add: outcome_def Randomized i_def len array_get_def)
  show ?thesis
  proof (cases "typeof (ts ! i) = ''function''")
    case True
    then have "res = call_template E (ts ! i) state" "r' = Randomized ts" "n' = Suc n"
      using c r get by (simp_all add: i_def [symmetric] Let_def)
    moreover have "call_template E (ts ! i) state = render_variant E (ts0 ! i) state"
      using rel True by (auto simp add: render_variant_def)
    ultimately show ?thesis
      using f r out by simp
  next
    case False
    with rel have same: "ts ! i = ts0 ! i"
      by auto
    show ?thesis
    proof (cases "hbs_compile E (ts ! i)")
      case (Inl e)
      then have "res = Inl e" "r' = Randomized ts" "n' = Suc n"
        using c r get False by (simp_all add: i_def [symmetric] Let_def)
      moreover have "render_variant E (ts0 ! i) state = Inl e"
        using Inl False same by (simp add: render_variant_def)
      ultimately show ?thesis
        using f r out by simp
    next
      case (Inr g)
      then have res: "res = call_template E (JFun g) state"
        and r': "r' = Randomized (array_set ts i (JFun g))" and n': "n' = Suc n"
        using c r get False by (simp_all add: i_def [symmetric] Let_def)
      have "render_variant E (ts0 ! i) state = call_template E (JFun g) state"
        using Inr False same by (simp add: render_variant_def)
      moreover have "list_all2
          (\<lambda>t0 t. t = t0 \<or>
             (typeof t0 \<noteq> ''function'' \<and> (\<exists>f. hbs_compile E t0 = Inr f \<and> t = JFun f)))
          ts0 (ts[i := JFun g])"
        using all i len Inr False same
        by (auto simp add: list_all2_conv_all_nth nth_list_update)
      moreover have "array_set ts i (JFun g) = ts[i := JFun g]"
        using i len by (simp add: array_set_def)
      ultimately show ?thesis
        using res r' n' out ne Randomized by simp
    qed
  qed
qed

lemma cache_ok_update:
  assumes "cache_ok E txt cache" and "randomizedCompiler E txt lang0 = Inr r0"
    and "follows E r0 r"
  shows "cache_ok E txt (cache(cache_key lang0 \<mapsto> r))"
  using assms unfolding cache_ok_def by (metis fun_upd_apply option.inject)

text \<open>
  C4, as amended. The renderer that cachedTranslatedCompilator returns builds one
  renderer for a language key, at the first call for that key, and every later call for
  the key uses it. When the text has one variant for the language, every call renders
  that template and draws nothing. When it has several, every call draws anew: call
  number \<open>n\<close> of \<open>Math.random\<close> picks the variant at index
  \<open>floor(Math.random() * count)\<close>, so two calls render the same variant when their
  draws give the same index.
\<close>

theorem cached_renderer_draws_per_call:
  assumes ok: "cache_ok E txt cache" and lang: "getp state ''lang'' = Inr lang"
    and run: "cachedTranslatedCompilator E txt state cache n = (res, cache', n')"
  shows "cache_ok E txt cache' \<and>
     (case cache (cache_key lang) of
        Some r \<Rightarrow>
          (\<exists>lang0 r0. cache_key lang0 = cache_key lang \<and>
             randomizedCompiler E txt lang0 = Inr r0 \<and> follows E r0 r \<and>
             outcome E r0 state n res n' \<and>
             (\<exists>r'. cache' (cache_key lang) = Some r' \<and> follows E r0 r'))
      | None \<Rightarrow>
          (case randomizedCompiler E txt lang of
             Inl e \<Rightarrow> res = Inl e \<and> cache' = cache \<and> n' = n
           | Inr r0 \<Rightarrow>
               outcome E r0 state n res n' \<and>
               (\<exists>r'. cache' (cache_key lang) = Some r' \<and> follows E r0 r')))"
proof (cases "cache (cache_key lang)")
  case None
  show ?thesis
  proof (cases "randomizedCompiler E txt lang")
    case (Inl e)
    with None lang run ok show ?thesis
      by (simp add: cachedTranslatedCompilator_def)
  next
    case (Inr r0)
    obtain res1 r1 n1 where c: "call_renderer E r0 state n = (res1, r1, n1)"
      by (cases "call_renderer E r0 state n") auto
    with None lang run Inr have eq: "res = res1" "cache' = cache(cache_key lang \<mapsto> r1)" "n' = n1"
      by (simp_all add: cachedTranslatedCompilator_def)
    from call_renderer_follows [OF follows_refl [OF Inr] c]
    have f: "follows E r0 r1" and o: "outcome E r0 state n res1 n1"
      by simp_all
    from cache_ok_update [OF ok Inr f] eq have "cache_ok E txt cache'"
      by simp
    with None Inr eq f o show ?thesis
      by simp
  qed
next
  case (Some r)
  with ok obtain lang0 r0 where k: "cache_key lang0 = cache_key lang"
    and r0: "randomizedCompiler E txt lang0 = Inr r0" and f0: "follows E r0 r"
    unfolding cache_ok_def by blast
  obtain res1 r1 n1 where c: "call_renderer E r state n = (res1, r1, n1)"
    by (cases "call_renderer E r state n") auto
  with Some lang run have eq: "res = res1" "cache' = cache(cache_key lang \<mapsto> r1)" "n' = n1"
    by (simp_all add: cachedTranslatedCompilator_def)
  from call_renderer_follows [OF f0 c]
  have f: "follows E r0 r1" and o: "outcome E r0 state n res1 n1"
    by simp_all
  from cache_ok_update [OF ok r0 f] eq k have "cache_ok E txt cache'"
    by simp
  with Some eq f o k r0 f0 show ?thesis
    by auto
qed

lemma cache_ok_empty: "cache_ok E txt Map.empty"
  by (simp add: cache_ok_def)

lemma rc_two:
  "randomizedCompiler example_engine two_variants (JStr ''en'')
     = Inr (Randomized [JStr ''Hello'', JStr ''Good day''])"
  by (simp add: two_variants_def randomizedCompiler_def getLanguageText_def
      isArrayOfObjects_def js_or_def Let_def)

theorem cached_renderer_draws_per_call_witness:
  "cache_ok example_engine two_variants cache_after_first \<and>
   outcome example_engine (Randomized [JStr ''Hello'', JStr ''Good day'']) state_en 0
     (Inr (JStr ''Hello'')) 1"
proof -
  have l: "getp state_en ''lang'' = Inr (JStr ''en'')"
    by (simp add: state_en_def)
  have c: "cachedTranslatedCompilator example_engine two_variants state_en Map.empty 0
     = (Inr (JStr ''Hello''), cache_after_first, 1)"
    by (simp add: cachedTranslatedCompilator_def state_en_def cache_key_def two_variants_def
      randomizedCompiler_def getLanguageText_def isArrayOfObjects_def js_or_def Let_def
      example_index_first example_compile example_call array_get_def array_set_def
      cache_after_first_def)
  show ?thesis
    using cached_renderer_draws_per_call [OF cache_ok_empty l c]
    by (simp add: rc_two)
qed

text \<open>
  C4 as it is written fails: with two variants and the draws 0 and 1/2, two calls for
  the language \<open>en\<close> render the first variant and then the second.
\<close>

theorem cached_renderer_choice_not_stable:
  "cachedTranslatedCompilator example_engine two_variants state_en Map.empty 0
     = (Inr (JStr ''Hello''), cache_after_first, 1) \<and>
   cachedTranslatedCompilator example_engine two_variants state_en cache_after_first 1
     = (Inr (JStr ''Good day''), cache_after_second, 2)"
  by (simp add: cachedTranslatedCompilator_def state_en_def cache_key_def two_variants_def
      randomizedCompiler_def getLanguageText_def isArrayOfObjects_def js_or_def Let_def
      example_index_first example_index_later example_compile example_call
      array_get_def array_set_def cache_after_first_def cache_after_second_def)

section \<open>processButtons: postback buttons\<close>

lemma getp_other:
  assumes "getp v k = Inr x"
  shows "\<exists>y. getp v k' = Inr y"
  using assms by (cases v) simp_all

lemma getp_other_E:
  assumes "getp v k = Inr x"
  obtains y where "getp v k' = Inr y"
  using getp_other [OF assms] by blast

text \<open>
  C10, as amended. processButtons renders the title of a button before it looks at the
  type of the button. For a button of type postback whose title renders: when linksMap
  has no entry for its targetRouteId, nothing is emitted and nothing is thrown, and the
  remaining buttons are processed as if the button were not there; when the entry is
  the address \<open>/\<close>, the postback button is created with the address \<open>./\<close>.
\<close>

theorem unmapped_postback_button_omitted:
  assumes title: "getp button ''title'' = Inr btnTitle"
    and act: "getp button ''action'' = Inr btnAction"
    and type: "getp btnAction ''type'' = Inr (JStr ''postback'')"
    and route: "getp btnAction ''targetRouteId'' = Inr targetRouteId"
    and t1: "getText E btnTitle state n = (Inr btnTitleText, n1)"
    and t2: "getText E btnTitle (JObj [(''lang'', JNull)]) n1 = (Inr defaultText, n2)"
  shows "(linksMap targetRouteId = None \<longrightarrow>
            process_button E lt state linksMap sender button elem n = (Inr elem, n2) \<and>
            processButtons E lt state linksMap sender (button # buttons) elem n
              = processButtons E lt state linksMap sender buttons elem n2) \<and>
         (linksMap targetRouteId = Some (JStr ''/'') \<longrightarrow>
            process_button E lt state linksMap sender button elem n
              = (Inr (elem @ [PostBackButton btnTitleText (JStr ''./'')]), n2))"
proof -
  obtain url where url: "getp btnAction ''url'' = Inr url"
    using type by (rule getp_other_E)
  obtain wh where wh: "getp btnAction ''webviewHeight'' = Inr wh"
    using type by (rule getp_other_E)
  have step: "process_button E lt state linksMap sender button elem n =
     (let postbackAction = Map_get linksMap targetRouteId in
             if postbackAction = JStr ''/''
             then (Inr (elem @ [PostBackButton btnTitleText (JStr ''./'')]), n2)
             else if \<not> truthy postbackAction then (Inr elem, n2)
             else (Inr (elem @ [PostBackButton btnTitleText postbackAction]), n2))"
    by (simp add: process_button_def title act type route t1 t2 url wh)
  show ?thesis
    by (simp add: step Map_get_def)
qed

theorem unmapped_postback_button_omitted_witness:
  "process_button example_engine default_linksTranslator state_en Map.empty (JStr ''user'')
     postback_button [] 0 = (Inr [], 0) \<and>
   processButtons example_engine default_linksTranslator state_en Map.empty (JStr ''user'')
     [postback_button] [] 0 = (Inr [], 0) \<and>
   process_button example_engine default_linksTranslator state_en
     [JStr ''route-7'' \<mapsto> JStr ''/''] (JStr ''user'') postback_button [] 0
     = (Inr [PostBackButton (JStr ''Hello'') (JStr ''./'')], 0)"
proof -
  let ?act = "JObj [(''type'', JStr ''postback''), (''targetRouteId'', JStr ''route-7'')]"
  have title: "getp postback_button ''title'' = Inr (JStr ''Hello'')"
    and act: "getp postback_button ''action'' = Inr ?act"
    by (simp_all add: postback_button_def)
  have type: "getp ?act ''type'' = Inr (JStr ''postback'')"
    and route: "getp ?act ''targetRouteId'' = Inr (JStr ''route-7'')"
    by simp_all
  have t1: "getText example_engine (JStr ''Hello'') state_en 0 = (Inr (JStr ''Hello''), 0)"
    by (simp add: getText_def state_en_def randomizedCompiler_def getLanguageText_def
        isArrayOfObjects_def js_or_def Let_def example_engine_def)
  have t2: "getText example_engine (JStr ''Hello'') (JObj [(''lang'', JNull)]) 0
              = (Inr (JStr ''Hello''), 0)"
    by (simp add: getText_def randomizedCompiler_def getLanguageText_def
        isArrayOfObjects_def js_or_def Let_def example_engine_def)
  note inst = unmapped_postback_button_omitted [OF title act type route t1 t2]
  have e: "(Map.empty :: jsval \<rightharpoonup> jsval) (JStr ''route-7'') = None"
    and s: "[JStr ''route-7'' \<mapsto> JStr ''/''] (JStr ''route-7'') = Some (JStr ''/'')"
    by simp_all
  from inst [of Map.empty default_linksTranslator "JStr ''user''" "[]" "[]"] e
  have 1: "process_button example_engine default_linksTranslator state_en Map.empty (JStr ''user'')
     postback_button [] 0 = (Inr [], 0)"
    and 2: "processButtons example_engine default_linksTranslator state_en Map.empty (JStr ''user'')
     [postback_button] [] 0 = (Inr [], 0)"
    by simp_all
  from inst [of "[JStr ''route-7'' \<mapsto> JStr ''/'']" default_linksTranslator "JStr ''user''" "[]" "[]"] s
  have 3: "process_button example_engine default_linksTranslator state_en
     [JStr ''route-7'' \<mapsto> JStr ''/''] (JStr ''user'') postback_button [] 0
     = (Inr [PostBackButton (JStr ''Hello'') (JStr ''./'')], 0)"
    by simp
  from 1 2 3 show ?thesis by simp
qed

text \<open>
  C10 as it is written fails: a postback button with no entry in linksMap raises an error
  when its title does not render. Here the translations of the title hold a null, which
  getLanguageText reads while it looks for the language \<open>cz\<close>; the TypeError comes from
  the title, before the switch, whatever the template engine is.
\<close>

theorem unmapped_postback_button_can_throw:
  "getp broken_title_button ''action''
     = Inr (JObj [(''type'', JStr ''postback''), (''targetRouteId'', JStr ''route-7'')]) \<and>
   (Map.empty :: jsval \<rightharpoonup> jsval) (JStr ''route-7'') = None \<and>
   process_button example_engine default_linksTranslator state_cz Map.empty (JStr ''user'')
     broken_title_button [] 0
     = (Inl (TypeError ''Cannot read properties of null (reading l)''), 0) \<and>
   processButtons example_engine default_linksTranslator state_cz Map.empty (JStr ''user'')
     [broken_title_button] [] 0
     = (Inl (TypeError ''Cannot read properties of null (reading l)''), 0)"
  by (simp add: process_button_def broken_title_button_def state_cz_def getText_def
      randomizedCompiler_def getLanguageText_def isArrayOfObjects_def Let_def)

section \<open>Responder: the conversation state is not written\<close>

lemma assign_at_frame:
  "next_addr (assign_at p src w) = next_addr w \<and>
   (q \<noteq> p \<longrightarrow> heap (assign_at p src w) q = heap w q)"
  by (simp add: assign_at_def split: option.splits)

lemma send_msg_frame:
  "heap (send_msg r d w) = heap w \<and> next_addr (send_msg r d w) = next_addr w"
  by (simp add: send_msg_def Let_def)

lemma senderAction_frame:
  "heap (senderAction a r w) = heap w \<and> next_addr (senderAction a r w) = next_addr w"
  by (simp add: senderAction_def send_msg_frame)

lemma wait_ms_frame:
  "heap (wait_ms ms r w) = heap w \<and> next_addr (wait_ms ms r w) = next_addr w"
  by (simp add: wait_ms_def send_msg_frame)

lemma setState_frame:
  "q \<noteq> newState r \<Longrightarrow> heap (setState object r w) q = heap w q"
  by (simp add: setState_def assign_at_frame)

lemma setData_frame:
  "q \<noteq> data_ref r \<Longrightarrow> heap (setData d r w) q = heap w q"
  by (simp add: setData_def assign_at_frame)

lemma autoTyping_frame:
  assumes "autoTypingIfEnabled H txt r w = (r1, w1)"
  shows "newState r1 = newState r \<and> data_ref r1 = data_ref r \<and> heap w1 = heap w"
  using assms
  by (auto simp add: autoTypingIfEnabled_def wait_ms_frame senderAction_frame split: if_splits)

lemma text_op_frame:
  assumes "text_op H txt args r w = (res, r', w')"
  shows "frame r w r' w'"
  using assms unfolding text_op_def Let_def frame_def
  by (auto split: sum.splits prod.splits if_splits dest!: autoTyping_frame
      simp add: send_msg_frame setState_frame)

lemma frame_refl: "frame r w r w"
  by (simp add: frame_def)

lemma frame_trans:
  assumes "frame r w r1 w1" and "frame r1 w1 r2 w2"
  shows "frame r w r2 w2"
  using assms by (simp add: frame_def)

lemma addQuickReply_frame:
  assumes "addQuickReply H act title d prepend r w = (res, r', w')"
  shows "frame r w r' w'"
  using assms unfolding addQuickReply_def frame_def
  by (auto split: sum.splits)

lemma expected_frame:
  assumes "expected H act d r w = (res, r', w')"
  shows "frame r w r' w'"
  using assms unfolding expected_def frame_def
  by (auto split: sum.splits if_splits simp add: setState_frame)

lemma attachment_frame:
  assumes "attachment H url type reusable r w = (res, r', w')"
  shows "frame r w r' w'"
  using assms unfolding attachment_def Let_def frame_def
  by (auto split: jsval.splits prod.splits dest!: autoTyping_frame simp add: send_msg_frame)

lemma template_op_frame:
  assumes "template_op H payload r w = (r', w')"
  shows "frame r w r' w'"
  using assms unfolding template_op_def Let_def frame_def
  by (auto split: prod.splits dest!: autoTyping_frame simp add: send_msg_frame)

lemma passThread_frame:
  assumes "passThread H targetAppId d r w = (res, r', w')"
  shows "frame r w r' w'"
  using assms unfolding passThread_def frame_def
  by (auto split: sum.splits simp add: send_msg_frame)

lemma takeThead_frame:
  assumes "takeThead H d r w = (res, r', w')"
  shows "frame r w r' w'"
  using assms unfolding takeThead_def frame_def
  by (auto split: sum.splits simp add: send_msg_frame)

lemma exec_frame:
  assumes "exec H x r w = (res, r', w')"
  shows "frame r w r' w'"
proof (cases x)
  case (SetMessgingType mt tg)
  with assms show ?thesis by (auto simp add: frame_def)
next
  case (SetData d)
  with assms show ?thesis by (auto simp add: frame_def setData_frame)
next
  case (SetPath p rp)
  with assms show ?thesis by (auto simp add: frame_def)
next
  case (Text body args)
  with assms show ?thesis by (simp add: text_op_frame)
next
  case (SetState object)
  with assms show ?thesis by (auto simp add: frame_def setState_frame)
next
  case (AddQuickReply act title d prepend)
  with assms show ?thesis by (simp add: addQuickReply_frame)
next
  case (Expected act d)
  with assms show ?thesis by (simp add: expected_frame)
next
  case (Image url reusable)
  with assms show ?thesis by (simp add: attachment_frame)
next
  case (Video url reusable)
  with assms show ?thesis by (simp add: attachment_frame)
next
  case (File url reusable)
  with assms show ?thesis by (simp add: attachment_frame)
next
  case (TemplateMsg payload)
  with assms show ?thesis by (auto split: prod.splits simp add: template_op_frame)
next
  case (Wait ms)
  with assms show ?thesis by (auto simp add: frame_def wait_ms_frame)
next
  case TypingOn
  with assms show ?thesis by (auto simp add: frame_def senderAction_frame)
next
  case TypingOff
  with assms show ?thesis by (auto simp add: frame_def senderAction_frame)
next
  case Seen
  with assms show ?thesis by (auto simp add: frame_def senderAction_frame)
next
  case (PassThread targetAppId d)
  with assms show ?thesis by (simp add: passThread_frame)
next
  case (TakeThead d)
  with assms show ?thesis by (simp add: takeThead_frame)
qed

lemma exec_all_frame:
  assumes "exec_all H xs r w = (res, r', w')"
  shows "frame r w r' w'"
  using assms
proof (induction xs arbitrary: r w)
  case Nil
  then show ?case by (simp add: frame_def)
next
  case (Cons x xs)
  obtain res1 r1 w1 where e: "exec H x r w = (res1, r1, w1)"
    by (cases "exec H x r w") auto
  show ?case
  proof (cases res1)
    case (Inl err)
    with Cons.prems e have "r' = r1" "w' = w1" by simp_all
    with exec_frame [OF e] show ?thesis by simp
  next
    case (Inr u)
    with Cons.prems e have "exec_all H xs r1 w1 = (res, r', w')" by simp
    from frame_trans [OF exec_frame [OF e] Cons.IH [OF this]] show ?thesis .
  qed
qed

lemma Responder_new_fresh:
  assumes "Responder_new sender tok opts d w = (r, w1)"
  shows "next_addr w \<le> newState r" and "heap w1 (newState r) = Some []"
    and "\<forall>q. q < next_addr w \<longrightarrow> heap w1 q = heap w q"
    and "data_ref r = (case d of Some p \<Rightarrow> p | None \<Rightarrow> next_addr w)"
  using assms
  by (cases d; auto simp add: Responder_new_def Let_def)+

text \<open>
  C5. A responder is constructed and runs any sequence of its operations, to the end or
  to a throw. Every object that was in the heap before the construction, other than the
  object given to the constructor as \<open>data\<close>, is unchanged: so is the conversation state
  of the caller. The writes of setState go to \<open>newState\<close>, an object that the
  constructor creates empty, at an address of its own, and that stays the responder's
  patch object; every other object but \<open>data\<close> is left as it is.
\<close>

theorem responder_leaves_state_unchanged:
  assumes new: "Responder_new sender tok opts d w = (r, w1)"
    and run: "exec_all H ops r w1 = (res, r', w')"
    and state: "sa < next_addr w"
    and data: "d \<noteq> Some sa"
  shows "heap w' sa = heap w sa \<and>
         newState r' = newState r \<and> newState r \<noteq> sa \<and> heap w1 (newState r) = Some [] \<and>
         (\<forall>q. q \<noteq> newState r \<and> q \<noteq> data_ref r \<longrightarrow> heap w' q = heap w1 q)"
proof -
  note fresh = Responder_new_fresh [OF new]
  from fresh(1) state have n: "newState r \<noteq> sa"
    by simp
  from fresh(4) state data have dr: "data_ref r \<noteq> sa"
    by (cases d) auto
  from exec_all_frame [OF run] have f: "frame r w1 r' w'" .
  with n dr have "heap w' sa = heap w1 sa"
    by (simp add: frame_def)
  with fresh(3) state have "heap w' sa = heap w sa"
    by simp
  with f n fresh(2) show ?thesis
    by (simp add: frame_def)
qed

lemma ev_new:
  "Responder_new (JStr ''user'') JNull (JObj []) None example_world
     = (example_responder, example_world_new)"
  by (simp add: Responder_new_def example_world_def Let_def object_assign_def lookup_def
      example_responder_def example_world_new_def numeral_2_eq_2 numeral_3_eq_3)

lemma ev_run:
  "exec_all example_host example_ops example_responder example_world_new
     = (Inr (), example_responder, example_world_after)"
  by (simp add: example_ops_def example_responder_def example_world_new_def
      example_world_after_def example_host_def setState_def assign_at_def arg_props_def
      object_assign_def expected_def text_op_def autoTypingIfEnabled_def lookup_def
      send_msg_def Let_def fun_upd_twist)

theorem responder_leaves_state_unchanged_witness:
  "Responder_new (JStr ''user'') JNull (JObj []) None example_world
     = (example_responder, example_world_new) \<and>
   exec_all example_host example_ops example_responder example_world_new
     = (Inr (), example_responder, example_world_after) \<and>
   heap example_world_after 0 = Some [(''visited'', JBool True)] \<and>
   heap example_world_after 2
     = Some [(''visited'', JBool True),
             (''_expected'', JObj [(''action'', JStr ''/next''), (''data'', JObj [])])]"
proof -
  have s: "0 < next_addr example_world" and d: "None \<noteq> Some (0::nat)"
    by (simp_all add: example_world_def)
  from responder_leaves_state_unchanged [OF ev_new ev_run s d]
  have "heap example_world_after 0 = heap example_world 0"
    by simp
  then have "heap example_world_after 0 = Some [(''visited'', JBool True)]"
    by (simp add: example_world_def)
  moreover have "heap example_world_after 2
     = Some [(''visited'', JBool True),
             (''_expected'', JObj [(''action'', JStr ''/next''), (''data'', JObj [])])]"
    by (simp add: example_world_after_def)
  ultimately show ?thesis
    using ev_new ev_run by simp
qed

section \<open>ConfigCache: concurrent gets share one fetch\<close>

lemma gets_in_flight:
  assumes "cached (entries c k) = None" and "inFlight (entries c k) = Some f"
  shows "foldl step c (map (\<lambda>t. Get t k) ts) = c\<lparr>awaiting := awaiting c @ map (\<lambda>t. (t, f)) ts\<rparr>"
  using assms
proof (induction ts arbitrary: c)
  case Nil
  then show ?case by simp
next
  case (Cons t ts)
  have s: "step c (Get t k) = c\<lparr>awaiting := awaiting c @ [(t, f)]\<rparr>"
    using Cons.prems by (simp add: get_config_def)
  have "foldl step (c\<lparr>awaiting := awaiting c @ [(t, f)]\<rparr>) (map (\<lambda>t. Get t k) ts)
          = c\<lparr>awaiting := awaiting c @ [(t, f)]\<rparr>
              \<lparr>awaiting := awaiting (c\<lparr>awaiting := awaiting c @ [(t, f)]\<rparr>) @ map (\<lambda>t. (t, f)) ts\<rparr>"
    by (rule Cons.IH) (simp_all add: Cons.prems)
  with s show ?case by simp
qed

lemma first_get:
  assumes "cached (entries c k) = None" and "inFlight (entries c k) = None"
  shows "get_config t k c =
           c\<lparr>entries := (entries c)(k := (entries c k)\<lparr>inFlight := Some (length (started c))\<rparr>),
             started := started c @ [(length (started c), k)],
             awaiting := awaiting c @ [(t, length (started c))]\<rparr>"
  using assms by (simp add: get_config_def Let_def)

lemma gets_from_miss:
  assumes "cached (entries c k) = None" and "inFlight (entries c k) = None" and "ts \<noteq> []"
  shows "foldl step c (map (\<lambda>t. Get t k) ts) =
           c\<lparr>entries := (entries c)(k := (entries c k)\<lparr>inFlight := Some (length (started c))\<rparr>),
             started := started c @ [(length (started c), k)],
             awaiting := awaiting c @ map (\<lambda>t. (t, length (started c))) ts\<rparr>"
proof -
  from assms(3) obtain t rest where ts: "ts = t # rest"
    by (cases ts) auto
  let ?c1 = "c\<lparr>entries := (entries c)(k := (entries c k)\<lparr>inFlight := Some (length (started c))\<rparr>),
             started := started c @ [(length (started c), k)],
             awaiting := awaiting c @ [(t, length (started c))]\<rparr>"
  have "foldl step ?c1 (map (\<lambda>t. Get t k) rest)
          = ?c1\<lparr>awaiting := awaiting ?c1 @ map (\<lambda>t. (t, length (started c))) rest\<rparr>"
    by (rule gets_in_flight) (simp_all add: assms)
  then show ?thesis
    by (simp add: ts first_get [OF assms(1,2)])
qed

lemma numbered_map_of:
  assumes "map fst xs = [0..<length xs]"
  shows "map_of (xs @ [(length xs, k)]) (length xs) = Some k"
proof -
  have "length xs \<notin> set (map fst xs)"
    using assms by simp
  then have "map_of xs (length xs) = None"
    by (simp add: map_of_eq_None_iff)
  then show ?thesis
    by (simp add: map_add_def)
qed

lemma no_waiters_yet:
  assumes "list_all (\<lambda>(t, g). g < (n::nat)) (aw :: (nat \<times> nat) list)"
  shows "filter (\<lambda>(t, g). g = n) aw = []"
  using assms by (induction aw) auto

lemma get_while_in_flight:
  assumes "inFlight (entries c k) = Some f"
    and "cached (entries c k) = None \<or> \<not> now c - fetchedAt (entries c k) < ttl c"
  shows "get_config t k c = c\<lparr>awaiting := awaiting c @ [(t, f)]\<rparr>"
  using assms by (auto simp add: get_config_def Let_def split: option.splits)

text \<open>
  C2. A cache has no value and no fetch in flight for a key, and N callers (N > 0) call
  \<open>get\<close> for that key before the fetch completes. Then exactly one remote fetch is
  started, by the first call; no caller has a reply while it is in flight; and when it
  completes with a configuration, the N callers, and only they, receive that one
  configuration, which is then the cached value. A call that arrives while a fetch is in
  flight for its key, with no fresh cached value, starts nothing: it is added to the
  callers that await that fetch.
\<close>

theorem single_flight:
  assumes wf: "numbered c"
    and miss: "cached (entries c k) = None" and idle: "inFlight (entries c k) = None"
    and callers: "ts \<noteq> []"
  shows "started (foldl step c (map (\<lambda>t. Get t k) ts)) = started c @ [(length (started c), k)] \<and>
         replies (foldl step c (map (\<lambda>t. Get t k) ts)) = replies c \<and>
         inFlight (entries (foldl step c (map (\<lambda>t. Get t k) ts)) k) = Some (length (started c)) \<and>
         started (foldl step c (map (\<lambda>t. Get t k) ts @ [Done (length (started c)) (Some v)]))
           = started c @ [(length (started c), k)] \<and>
         replies (foldl step c (map (\<lambda>t. Get t k) ts @ [Done (length (started c)) (Some v)]))
           = replies c @ map (\<lambda>t. (t, Got v)) ts \<and>
         cached (entries (foldl step c (map (\<lambda>t. Get t k) ts @ [Done (length (started c)) (Some v)])) k)
           = Some v \<and>
         step (foldl step c (map (\<lambda>t. Get t k) ts)) (Get late k)
           = (foldl step c (map (\<lambda>t. Get t k) ts))
               \<lparr>awaiting := awaiting (foldl step c (map (\<lambda>t. Get t k) ts)) @ [(late, length (started c))]\<rparr>"
proof -
  let ?f = "length (started c)"
  let ?c1 = "foldl step c (map (\<lambda>t. Get t k) ts)"
  have c1: "?c1 = c\<lparr>entries := (entries c)(k := (entries c k)\<lparr>inFlight := Some ?f\<rparr>),
             started := started c @ [(?f, k)],
             awaiting := awaiting c @ map (\<lambda>t. (t, ?f)) ts\<rparr>"
    by (rule gets_from_miss [OF miss idle callers])
  from wf have nf: "map fst (started c) = [0..<?f]"
    by (simp add: numbered_def)
  have st: "started ?c1 = started c @ [(?f, k)]"
    by (simp add: c1)
  have m: "map_of (started ?c1) ?f = Some k"
    unfolding st by (rule numbered_map_of [OF nf])
  from wf have "filter (\<lambda>(t, g). g = ?f) (awaiting c) = []"
    by (simp add: numbered_def no_waiters_yet)
  then have w: "waiters ?f ?c1 = ts"
    by (simp add: c1 waiters_def comp_def)
  have i: "inFlight (entries ?c1 k) = Some ?f"
    by (simp add: c1)
  have d: "foldl step c (map (\<lambda>t. Get t k) ts @ [Done ?f (Some v)]) = fetch_done ?f (Some v) ?c1"
    by simp
  have "started (fetch_done ?f (Some v) ?c1) = started ?c1"
    and "replies (fetch_done ?f (Some v) ?c1) = replies ?c1 @ map (\<lambda>t. (t, Got v)) ts"
    and "cached (entries (fetch_done ?f (Some v) ?c1) k) = Some v"
    using m i w by (simp_all add: fetch_done_def)
  moreover have "cached (entries ?c1 k) = None"
    by (simp add: c1 miss)
  then have "step ?c1 (Get late k) = ?c1\<lparr>awaiting := awaiting ?c1 @ [(late, ?f)]\<rparr>"
    using i by (simp add: get_while_in_flight)
  ultimately show ?thesis
    unfolding d using i st by (simp add: c1)
qed

lemma numbered_empty: "numbered (empty_cache life)"
  by (simp add: numbered_def empty_cache_def)

lemma list_all_less_mono:
  assumes "list_all (\<lambda>(t, g). g < (n::nat)) (aw :: (nat \<times> nat) list)" and "n \<le> m"
  shows "list_all (\<lambda>(t, g). g < m) aw"
  using assms by (induction aw) auto

lemma numbered_step:
  assumes "numbered c"
  shows "numbered (step c e)"
proof (cases e)
  case (Get t k)
  show ?thesis
  proof (cases "case cached (entries c k) of
              Some v \<Rightarrow> if now c - fetchedAt (entries c k) < ttl c then Some v else None
            | None \<Rightarrow> None")
    case (Some v)
    with assms Get show ?thesis
      by (simp add: get_config_def Let_def numbered_def)
  next
    case None
    show ?thesis
    proof (cases "inFlight (entries c k)")
      case (Some f)
      with assms have "f < length (started c)"
        by (simp add: numbered_def)
      with assms Get None Some show ?thesis
        by (simp add: get_config_def Let_def numbered_def)
    next
      case idle: None
      from assms have "list_all (\<lambda>(t, g). g < Suc (length (started c))) (awaiting c)"
        by (simp add: numbered_def list_all_less_mono [where n = "length (started c)"])
      with assms Get None idle show ?thesis
        by (auto simp add: get_config_def Let_def numbered_def less_Suc_eq)
    qed
  qed
next
  case (Done f res)
  have "list_all (\<lambda>(t, g). g < length (started c)) (filter (\<lambda>(t, g). g \<noteq> f) (awaiting c))"
    using assms by (simp add: numbered_def list_all_iff)
  with assms Done show ?thesis
    by (auto simp add: fetch_done_def numbered_def split: option.splits)
next
  case (Invalidate k)
  with assms show ?thesis
    by (simp add: invalidate_def numbered_def)
next
  case (Tick d)
  with assms show ?thesis
    by (simp add: numbered_def)
qed

lemma numbered_run: "numbered c \<Longrightarrow> numbered (foldl step c es)"
  by (induction es arbitrary: c) (simp_all add: numbered_step)

theorem single_flight_witness:
  "started (foldl step (empty_cache 60000 :: nat config_cache)
              (map (\<lambda>t. Get t ''bot'') [1, 2, 3] @ [Done 0 (Some 7)])) = [(0, ''bot'')] \<and>
   replies (foldl step (empty_cache 60000 :: nat config_cache)
              (map (\<lambda>t. Get t ''bot'') [1, 2, 3] @ [Done 0 (Some 7)]))
     = [(1, Got 7), (2, Got 7), (3, Got 7)]"
proof -
  let ?c = "empty_cache 60000 :: nat config_cache"
  have m: "cached (entries ?c ''bot'') = None" and i: "inFlight (entries ?c ''bot'') = None"
    and s: "started ?c = []" and r: "replies ?c = []"
    by (simp_all add: empty_cache_def)
  have t: "[1, 2, 3] \<noteq> ([] :: nat list)"
    by simp
  from single_flight [OF numbered_empty m i t, of 7] show ?thesis
    by (simp add: s r)
qed

end
